theory Spec2Isabelle
  imports Complex_Main
begin

section \<open>Byte strings and Python slicing\<close>

text \<open>
  A Python \<open>bytes\<close> (and \<open>str\<close>) value is a list of 8-bit characters.
  \<open>slice i j s\<close> is Python's \<open>s[i:j]\<close> for \<open>0 \<le> i \<le> j\<close>: it never raises and
  is shorter than \<open>j - i\<close> when \<open>s\<close> is too short.  \<open>s[i]\<close> raises IndexError out
  of range, which \<open>byte_at\<close> makes a value.
\<close>

type_synonym bytes = "char list"

datatype exn =
    IndexError
  | KeyError
  | ZeroDivisionError
  | AttributeError
  | ValidatorError
  | StopExtraction
  | ControlException

definition slice :: "nat \<Rightarrow> nat \<Rightarrow> 'a list \<Rightarrow> 'a list" where
  "slice i j s = take (j - i) (drop i s)"

definition byte_at :: "bytes \<Rightarrow> nat \<Rightarrow> exn + char" where
  "byte_at s i = (if i < length s then Inr (s ! i) else Inl IndexError)"

definition lstrip :: "bytes \<Rightarrow> bytes" where
  "lstrip s = dropWhile (\<lambda>c. c \<in> set [CHR '' '', CHR 0x09, CHR 0x0A, CHR 0x0D, CHR 0x0B, CHR 0x0C]) s"

definition lower_byte :: "char \<Rightarrow> char" where
  "lower_byte c = (let n = (of_char c :: nat) in if 65 \<le> n \<and> n \<le> 90 then char_of (n + 32) else c)"

definition lower :: "bytes \<Rightarrow> bytes" where
  "lower s = map lower_byte s"

definition startswith :: "'a list \<Rightarrow> 'a list \<Rightarrow> bool" where
  "startswith s p = (take (length p) s = p)"

section \<open>The signature table\<close>

text \<open>
  \<open>SIGNATURE_CHECKS\<close> of \<open>downloader/http.py\<close>, in the dictionary's insertion
  order.  Every predicate but \<open>avif\<close> only slices; \<open>avif\<close> indexes \<open>s[11]\<close> once
  \<open>s[4:11]\<close> has matched, which raises IndexError on an 11-byte header.  A check
  therefore returns \<open>exn + bool\<close>; the boolean is the truth value of what the
  Python lambda returns.
\<close>

type_synonym check = "bytes \<Rightarrow> exn + bool"

definition no_raise :: "(bytes \<Rightarrow> bool) \<Rightarrow> check" where
  "no_raise p = (\<lambda>s. Inr (p s))"

definition signature_html :: "bytes \<Rightarrow> bool" where
  "signature_html s0 = (let s = lstrip (slice 0 14 s0) in s \<noteq> [] \<and> startswith ''<!doctype html'' (lower s))"

definition sig_jpg :: "bytes \<Rightarrow> bool" where
  "sig_jpg s = (slice 0 3 s = [CHR 0xFF, CHR 0xD8, CHR 0xFF])"

definition sig_png :: "bytes \<Rightarrow> bool" where
  "sig_png s = (slice 0 8 s = [CHR 0x89, CHR ''P'', CHR ''N'', CHR ''G'', CHR 0x0D, CHR 0x0A, CHR 0x1A, CHR 0x0A])"

definition sig_gif :: "bytes \<Rightarrow> bool" where
  "sig_gif s = (slice 0 6 s \<in> set [''GIF87a'', ''GIF89a''])"

definition sig_bmp :: "bytes \<Rightarrow> bool" where
  "sig_bmp s = (slice 0 2 s = ''BM'')"

definition sig_webp :: "bytes \<Rightarrow> bool" where
  "sig_webp s = (slice 0 4 s = ''RIFF'' \<and> slice 8 12 s = ''WEBP'')"

definition sig_avif :: check where
  "sig_avif s =
     (if slice 4 11 s = ''ftypavi''
      then (case byte_at s 11 of Inl e \<Rightarrow> Inl e | Inr b \<Rightarrow> Inr (b \<in> set ''fs''))
      else Inr False)"

definition sig_heic :: "bytes \<Rightarrow> bool" where
  "sig_heic s = (slice 4 10 s = ''ftyphe'' \<and>
       slice 10 12 s \<in> set [''ic'', ''im'', ''is'', ''ix'', ''vc'', ''vm'', ''vs''])"

definition sig_svg :: "bytes \<Rightarrow> bool" where
  "sig_svg s = (slice 0 5 s = ''<?xml'')"

definition sig_ico :: "bytes \<Rightarrow> bool" where
  "sig_ico s = (slice 0 4 s = [CHR 0x00, CHR 0x00, CHR 0x01, CHR 0x00])"

definition sig_cur :: "bytes \<Rightarrow> bool" where
  "sig_cur s = (slice 0 4 s = [CHR 0x00, CHR 0x00, CHR 0x02, CHR 0x00])"

definition sig_psd :: "bytes \<Rightarrow> bool" where
  "sig_psd s = (slice 0 4 s = ''8BPS'')"

definition sig_mp4 :: "bytes \<Rightarrow> bool" where
  "sig_mp4 s = (slice 4 8 s = ''ftyp'' \<and> slice 8 11 s \<in> set [''mp4'', ''avc'', ''iso''])"

definition sig_m4v :: "bytes \<Rightarrow> bool" where
  "sig_m4v s = (slice 4 11 s = ''ftypM4V'')"

definition sig_mov :: "bytes \<Rightarrow> bool" where
  "sig_mov s = (slice 4 12 s = ''ftypqt  '')"

definition sig_webm :: "bytes \<Rightarrow> bool" where
  "sig_webm s = (slice 0 4 s = [CHR 0x1A, CHR 0x45, CHR 0xDF, CHR 0xA3])"

definition sig_ogg :: "bytes \<Rightarrow> bool" where
  "sig_ogg s = (slice 0 4 s = ''OggS'')"

definition sig_wav :: "bytes \<Rightarrow> bool" where
  "sig_wav s = (slice 0 4 s = ''RIFF'' \<and> slice 8 12 s = ''WAVE'')"

definition sig_mp3 :: "bytes \<Rightarrow> bool" where
  "sig_mp3 s = (slice 0 3 s = ''ID3'' \<or>
       slice 0 2 s \<in> set [[CHR 0xFF, CHR 0xFB], [CHR 0xFF, CHR 0xF3], [CHR 0xFF, CHR 0xF2]])"

definition sig_zip :: "bytes \<Rightarrow> bool" where
  "sig_zip s = (slice 0 4 s \<in> set [[CHR ''P'', CHR ''K'', CHR 0x03, CHR 0x04],
       [CHR ''P'', CHR ''K'', CHR 0x05, CHR 0x06], [CHR ''P'', CHR ''K'', CHR 0x07, CHR 0x08]])"

definition sig_rar :: "bytes \<Rightarrow> bool" where
  "sig_rar s = (slice 0 6 s = [CHR ''R'', CHR ''a'', CHR ''r'', CHR ''!'', CHR 0x1A, CHR 0x07])"

definition sig_7z :: "bytes \<Rightarrow> bool" where
  "sig_7z s = (slice 0 6 s = [CHR 0x37, CHR 0x7A, CHR 0xBC, CHR 0xAF, CHR 0x27, CHR 0x1C])"

definition sig_pdf :: "bytes \<Rightarrow> bool" where
  "sig_pdf s = (slice 0 5 s = ''%PDF-'')"

definition sig_swf :: "bytes \<Rightarrow> bool" where
  "sig_swf s = (slice 0 3 s \<in> set [''CWS'', ''FWS''])"

definition sig_blend :: "bytes \<Rightarrow> bool" where
  "sig_blend s = (slice 0 7 s = ''BLENDER'')"

definition sig_obj :: "bytes \<Rightarrow> bool" where
  "sig_obj s = (slice 0 11 s = ''# Blender v'')"

definition sig_clip :: "bytes \<Rightarrow> bool" where
  "sig_clip s = (slice 0 8 s = ''CSFCHUNK'')"

definition sig_bin :: "bytes \<Rightarrow> bool" where
  "sig_bin s = False"

definition SIGNATURE_CHECKS :: "(string \<times> check) list" where
  "SIGNATURE_CHECKS =
    [(''jpg'', no_raise sig_jpg), (''png'', no_raise sig_png), (''gif'', no_raise sig_gif),
     (''bmp'', no_raise sig_bmp), (''webp'', no_raise sig_webp), (''avif'', sig_avif),
     (''heic'', no_raise sig_heic), (''svg'', no_raise sig_svg), (''ico'', no_raise sig_ico),
     (''cur'', no_raise sig_cur), (''psd'', no_raise sig_psd), (''mp4'', no_raise sig_mp4),
     (''m4v'', no_raise sig_m4v), (''mov'', no_raise sig_mov), (''webm'', no_raise sig_webm),
     (''ogg'', no_raise sig_ogg), (''wav'', no_raise sig_wav), (''mp3'', no_raise sig_mp3),
     (''zip'', no_raise sig_zip), (''rar'', no_raise sig_rar), (''7z'', no_raise sig_7z),
     (''pdf'', no_raise sig_pdf), (''swf'', no_raise sig_swf), (''html'', no_raise signature_html),
     (''htm'', no_raise signature_html), (''blend'', no_raise sig_blend), (''obj'', no_raise sig_obj),
     (''clip'', no_raise sig_clip), (''bin'', no_raise sig_bin)]"

text \<open>
  The \<open>for ext, check in SIGNATURE_CHECKS.items()\<close> loop of \<open>_adjust_extension\<close>:
  the first extension whose check is true, \<open>None\<close> when the loop falls through, and
  the exception of the first check that raises before any check has matched.
\<close>

fun scan_checks :: "(string \<times> check) list \<Rightarrow> bytes \<Rightarrow> exn + string option" where
  "scan_checks [] h = Inr None"
| "scan_checks ((ext, chk) # rest) h =
     (case chk h of
        Inl e \<Rightarrow> Inl e
      | Inr True \<Rightarrow> Inr (Some ext)
      | Inr False \<Rightarrow> scan_checks rest h)"

section \<open>The MIME table and the extension resolver\<close>

definition MIME_TYPES :: "(string \<times> string) list" where
  "MIME_TYPES =
    [(''image/jpeg'', ''jpg''), (''image/jpg'', ''jpg''), (''image/png'', ''png''),
     (''image/gif'', ''gif''), (''image/bmp'', ''bmp''), (''image/x-bmp'', ''bmp''),
     (''image/x-ms-bmp'', ''bmp''), (''image/webp'', ''webp''), (''image/avif'', ''avif''),
     (''image/heic'', ''heic''), (''image/heif'', ''heif''), (''image/svg+xml'', ''svg''),
     (''image/ico'', ''ico''), (''image/icon'', ''ico''), (''image/x-icon'', ''ico''),
     (''image/vnd.microsoft.icon'', ''ico''), (''image/x-photoshop'', ''psd''),
     (''application/x-photoshop'', ''psd''), (''image/vnd.adobe.photoshop'', ''psd''),
     (''video/webm'', ''webm''), (''video/ogg'', ''ogg''), (''video/mp4'', ''mp4''),
     (''video/m4v'', ''m4v''), (''video/x-m4v'', ''m4v''), (''video/quicktime'', ''mov''),
     (''audio/wav'', ''wav''), (''audio/x-wav'', ''wav''), (''audio/webm'', ''webm''),
     (''audio/ogg'', ''ogg''), (''audio/mpeg'', ''mp3''),
     (''application/zip'', ''zip''), (''application/x-zip'', ''zip''),
     (''application/x-zip-compressed'', ''zip''), (''application/rar'', ''rar''),
     (''application/x-rar'', ''rar''), (''application/x-rar-compressed'', ''rar''),
     (''application/x-7z-compressed'', ''7z''),
     (''application/pdf'', ''pdf''), (''application/x-pdf'', ''pdf''),
     (''application/x-shockwave-flash'', ''swf''),
     (''text/html'', ''html''),
     (''application/ogg'', ''ogg''), (''model/obj'', ''obj''),
     (''application/octet-stream'', ''bin'')]"

section \<open>Events, configuration and state\<close>

text \<open>
  Every call the downloader makes on a collaborator (session, path handle, logger,
  output, clock, file) is recorded in a trace, in program order.  Log messages
  are kept structured instead of formatted.
\<close>

datatype level = Debug | Warning

datatype message =
    MsgEmpty
  | MsgText string
  | MsgStatus int string string
  | MsgSizeMismatch nat int

datatype logrec =
    LRetry message int "nat option"
  | LExc string
  | LChallenge string
  | LMsg message
  | LInvalidResponse
  | LRedirect string
  | LHtml
  | LTooSmall int int
  | LTooLarge int int
  | LSignature string
  | LUnknownMime string
  | LUnableResume
  | LResuming nat
  | LExcInfo

datatype event =
    Log level logrec
  | Request string string "(string \<times> string) list" "string option"
  | Sleep rat
  | ReleaseConn
  | CloseResponse
  | PartEnable
  | SetExtension string
  | BuildPath
  | SetMetadata
  | OpenFile string
  | Write bytes
  | OutStart
  | Progress "int option" nat int
  | FlagsProcess
  | StderrNewline
  | RemoveFile string

text \<open>
  A \<open>requests\<close> response as far as the downloader reads it.  Header names are
  case-insensitive in \<open>requests\<close>; the model keeps them in lower case.
\<close>

record response =
  status_code :: int
  reason :: string
  headers :: "(string \<times> string) list"
  history :: bool
  resp_url :: string
  chunked :: bool

text \<open>
  \<open>bool(response)\<close> is \<open>response.ok\<close> in \<open>requests\<close>: false for a 4xx or 5xx
  status.  The loop head tests \<open>if response:\<close>.
\<close>

definition truthy_response :: "response option \<Rightarrow> bool" where
  "truthy_response r = (case r of None \<Rightarrow> False
     | Some x \<Rightarrow> \<not> (400 \<le> status_code x \<and> status_code x < 600))"

datatype vresult = VStr string | VTruthy | VFalsy | VRaise

datatype sigresult = SigTrue | SigOther "string option"

text \<open>
  The downloader's attributes after \<open>__init__\<close>.  \<open>retries\<close> is \<open>None\<close> for
  \<open>float("inf")\<close>; \<open>rate\<close> is what \<open>self.rate()\<close> returns, \<open>None\<close> when no rate
  limit is set; \<open>interval_429\<close> says whether a 429 backoff function is set (its
  value comes from the environment at each call).  Timeout, proxies and TLS
  verification are passed through to the session unchanged and are left out.
\<close>

record config =
  part :: bool
  metadata :: "string option"
  adjust_extension :: bool
  validate :: bool
  validate_html :: bool
  cfg_headers :: "(string \<times> string) list"
  minsize :: "int option"
  maxsize :: "int option"
  retries :: "nat option"
  retry_codes :: "int list"
  interval_429 :: bool
  mtime :: bool
  rate :: "rat option"
  progress :: "rat option"

text \<open>The per-file overrides read from \<open>pathfmt.kwdict\<close>.\<close>

record kwdict =
  http_expected_status :: "int list"
  http_adjust_extension :: "bool option"
  http_headers :: "(string \<times> string) list"
  http_method :: "string option"
  http_data :: "string option"
  http_retry :: "(response \<Rightarrow> bool) option"
  http_validate :: "(response \<Rightarrow> vresult) option"
  http_signature :: "(bytes \<Rightarrow> sigresult) option"
  http_lastmodified :: "string option"

text \<open>
  Functions of modules of the repository and of the standard library that are
  not part of the sources at hand (\<open>text.parse_int\<close>, \<open>mimetypes.guess_extension\<close>,
  \<open>util.detect_challenge\<close>), taken as parameters, and the division and the
  subtraction of floats, which round: \<open>float_div a b\<close> is the float \<open>a / b\<close> of
  Python for \<open>b\<close> other than zero, \<open>float_sub a b\<close> the float \<open>a - b\<close>.
\<close>

record externals =
  parse_int :: "string option \<Rightarrow> int option"
  guess_extension :: "string \<Rightarrow> string option"
  detect_challenge :: "response \<Rightarrow> string option"
  float_div :: "rat \<Rightarrow> rat \<Rightarrow> rat"
  float_sub :: "rat \<Rightarrow> rat \<Rightarrow> rat"

datatype conn_result =
    Responded response
  | ConnectionError string
  | Timeout string
  | OtherException string

datatype probe_result = Probe bytes | ProbeError string

datatype stream_end = EndOfStream | ReadError string

datatype flag = StopFlag | OtherFlag

text \<open>
  What the environment does during one iteration of the attempt loop: the value
  of \<open>interval_429()\<close>, the outcome of \<open>session.request\<close>, the answers of
  \<open>pathfmt.exists()\<close> after the path is built and after the extension is
  adjusted, the header probe, the chunks of the body, how the stream ends after
  them, and whether the part file has vanished when it is reopened.  A chunk
  comes with the value of \<open>time_elapsed\<close> at its arrival and with the value of
  \<open>FLAGS.DOWNLOAD\<close> after it is written, \<open>None\<close> when the flag is not set.
\<close>

type_synonym chunk = "rat \<times> bytes \<times> flag option"

record attempt =
  backoff_429 :: rat
  request_result :: conn_result
  exists_built :: bool
  exists_adjusted :: bool
  probe :: probe_result
  chunks :: "chunk list"
  stream_end :: stream_end
  part_gone :: bool

text \<open>
  The local variables of \<open>_download_impl\<close>, the attribute \<open>self.downloading\<close>,
  and the path handle.

  Modelled from the spec: the path handle (\<open>PathFormat\<close>) is not part of the
  sources at hand.  It is an extension, a temp path, and the temp file on disk
  that the temp path designates (\<open>None\<close> when there is none); \<open>part_size()\<close> is
  that file's length, \<open>set_extension\<close>, \<open>build_path\<close> and \<open>part_enable\<close> are
  recorded in the trace, \<open>exists()\<close> is answered by the environment.
\<close>

record state =
  tries :: int
  code :: int
  msg :: message
  resp :: "response option"
  url :: string
  meta :: "string option"
  file_size :: nat
  file_header :: "bytes option"
  offset :: nat
  size_raw :: "string option"
  size_int :: "int option"
  downloading :: bool
  extension :: string
  temppath :: string
  tempfile :: "bytes option"
  fpos :: nat
  mtime_http :: "string option option"
  trace :: "event list"

definition emit :: "event list \<Rightarrow> state \<Rightarrow> state" where
  "emit es s = s\<lparr>trace := trace s @ es\<rparr>"

definition warning :: "logrec \<Rightarrow> state \<Rightarrow> state" where
  "warning l s = emit [Log Warning l] s"

definition debug :: "logrec \<Rightarrow> state \<Rightarrow> state" where
  "debug l s = emit [Log Debug l] s"

definition release_conn :: "state \<Rightarrow> state" where
  "release_conn s = emit [ReleaseConn] s"

definition part_size :: "state \<Rightarrow> nat" where
  "part_size s = (case tempfile s of None \<Rightarrow> 0 | Some c \<Rightarrow> length c)"

definition part_enable :: "state \<Rightarrow> state" where
  "part_enable s = emit [PartEnable] (s\<lparr>temppath := temppath s @ ''.part''\<rparr>)"

definition set_extension :: "string \<Rightarrow> state \<Rightarrow> state" where
  "set_extension e s = emit [SetExtension e] (s\<lparr>extension := e\<rparr>)"

definition build_path :: "state \<Rightarrow> state" where
  "build_path s = emit [BuildPath] s"

definition fp_write :: "bytes \<Rightarrow> state \<Rightarrow> state" where
  "fp_write d s =
     (let c = (case tempfile s of None \<Rightarrow> [] | Some c \<Rightarrow> c)
      in emit [Write d]
           (s\<lparr>tempfile := Some (take (fpos s) c @ d @ drop (fpos s + length d) c),
              fpos := fpos s + length d\<rparr>))"

definition truthy_str :: "string option \<Rightarrow> bool" where
  "truthy_str v = (case v of None \<Rightarrow> False | Some x \<Rightarrow> x \<noteq> [])"

definition truthy_int :: "int option \<Rightarrow> bool" where
  "truthy_int v = (case v of None \<Rightarrow> False | Some x \<Rightarrow> x \<noteq> 0)"

section \<open>\<open>_find_extension\<close> and \<open>_adjust_extension\<close>\<close>

definition partition_head :: "char \<Rightarrow> string \<Rightarrow> string" where
  "partition_head sep s = takeWhile (\<lambda>c. c \<noteq> sep) s"

definition rpartition_tail :: "char \<Rightarrow> string \<Rightarrow> string" where
  "rpartition_tail sep s = rev (takeWhile (\<lambda>c. c \<noteq> sep) (rev s))"

text \<open>
  \<open>_find_extension\<close> returns the extension and logs a warning on the last
  path only; the model returns the extension with the log records it emits.
\<close>

definition find_extension :: "externals \<Rightarrow> response \<Rightarrow> string \<times> logrec list" where
  "find_extension X r =
     (let mtype = (case map_of (headers r) ''content-type'' of
                     None \<Rightarrow> ''image/jpeg'' | Some v \<Rightarrow> v);
          mtype = partition_head CHR '';'' mtype;
          mtype = (if CHR ''/'' \<notin> set mtype then ''image/'' @ mtype else mtype)
      in case map_of MIME_TYPES mtype of
           Some e \<Rightarrow> (e, [])
         | None \<Rightarrow>
            (case guess_extension X mtype of
               Some (dot # ext) \<Rightarrow> (ext, [])
             | _ \<Rightarrow> (''bin'', [LUnknownMime mtype])))"

definition adjust_extension_impl :: "state \<Rightarrow> bytes \<Rightarrow> exn + (bool \<times> state)" where
  "adjust_extension_impl s h =
     (case map_of SIGNATURE_CHECKS (extension s) of
        None \<Rightarrow> Inl KeyError
      | Some chk \<Rightarrow>
         (case chk h of
            Inl e \<Rightarrow> Inl e
          | Inr True \<Rightarrow> Inr (False, s)
          | Inr False \<Rightarrow>
             (case scan_checks SIGNATURE_CHECKS h of
                Inl e \<Rightarrow> Inl e
              | Inr None \<Rightarrow> Inr (False, s)
              | Inr (Some ext) \<Rightarrow> Inr (True, build_path (set_extension ext s)))))"

section \<open>The receivers\<close>

text \<open>
  Python's \<open>int(x)\<close> on a float truncates towards zero.  Times are floats, and
  every finite float is a rational; comparisons of floats are exact, divisions
  and subtractions are the parameters \<open>float_div\<close> and \<open>float_sub\<close>.

  Modelled from the spec: \<open>util.FLAGS\<close> is not part of the sources at hand.
  \<open>FLAGS.process("DOWNLOAD")\<close> is called when the flag is set; it clears the flag
  and raises, StopExtraction for the value \<open>stop\<close> (the default of the flag
  action) and another control exception for the other values.  So a set flag
  ends the receiver right after the write of the chunk.
\<close>

definition py_int :: "rat \<Rightarrow> int" where
  "py_int q = (if 0 \<le> q then \<lfloor>q\<rfloor> else \<lceil>q\<rceil>)"

definition flag_exn :: "flag \<Rightarrow> exn" where
  "flag_exn g = (case g of StopFlag \<Rightarrow> StopExtraction | OtherFlag \<Rightarrow> ControlException)"

fun receive :: "chunk list \<Rightarrow> event list \<times> exn option" where
  "receive [] = ([], None)"
| "receive ((t, d, f) # rest) =
     (case f of
        Some g \<Rightarrow> ([Write d, FlagsProcess], Some (flag_exn g))
      | None \<Rightarrow> (case receive rest of (evs, r) \<Rightarrow> (Write d # evs, r)))"

definition progress_step ::
  "externals \<Rightarrow> rat option \<Rightarrow> int option \<Rightarrow> nat \<Rightarrow> nat \<Rightarrow> rat \<Rightarrow> exn + event list" where
  "progress_step X prog bytes_total bytes_start bytes_downloaded time_elapsed =
     (case prog of
        None \<Rightarrow> Inr []
      | Some p \<Rightarrow>
         (if time_elapsed > p
          then (if time_elapsed = 0 then Inl ZeroDivisionError
                else Inr [Progress bytes_total (bytes_start + bytes_downloaded)
                            (py_int (float_div X (of_nat bytes_downloaded) time_elapsed))])
          else Inr []))"

definition rate_step :: "externals \<Rightarrow> rat option \<Rightarrow> nat \<Rightarrow> rat \<Rightarrow> exn + event list" where
  "rate_step X rt bytes_downloaded time_elapsed =
     (case rt of
        None \<Rightarrow> Inr []
      | Some r \<Rightarrow>
         (if r = 0 then Inl ZeroDivisionError
          else (let time_expected = float_div X (of_nat bytes_downloaded) r
                in if time_expected > time_elapsed
                   then Inr [Sleep (float_sub X time_expected time_elapsed)] else Inr [])))"

fun receive_rate ::
  "externals \<Rightarrow> rat option \<Rightarrow> rat option \<Rightarrow> int option \<Rightarrow> nat \<Rightarrow> nat \<Rightarrow> chunk list
     \<Rightarrow> event list \<times> exn option" where
  "receive_rate X rt prog bytes_total bytes_start bd [] = ([], None)"
| "receive_rate X rt prog bytes_total bytes_start bd ((t, d, f) # rest) =
     (let bd' = bd + length d
      in case f of
           Some g \<Rightarrow> ([Write d, FlagsProcess], Some (flag_exn g))
         | None \<Rightarrow>
            (case progress_step X prog bytes_total bytes_start bd' t of
               Inl e \<Rightarrow> ([Write d], Some e)
             | Inr ev2 \<Rightarrow>
                (case rate_step X rt bd' t of
                   Inl e \<Rightarrow> (Write d # ev2, Some e)
                 | Inr ev3 \<Rightarrow>
                    (case receive_rate X rt prog bytes_total bytes_start bd' rest of
                       (evs, r) \<Rightarrow> (Write d # ev2 @ ev3 @ evs, r)))))"

section \<open>The attempt loop of \<open>_download_impl\<close>\<close>

text \<open>
  The \<open>return\<close> statements of \<open>_download_impl\<close>, by place: retries exhausted
  (line 128), a request exception other than a connection error or a timeout
  (177), a status that is neither accepted nor retried (203), a validator
  rejection (220), an HTML response (228), a declared size under the minimum
  (239) or over the maximum (246), an existing final path after the path is
  built (273), a rejected signature (299), an existing final path after the
  extension is adjusted (304), a StopExtraction while receiving (339), and the
  end of the function (361).
\<close>

datatype exit =
    RetriesExhausted
  | RequestFailed
  | BadStatus
  | InvalidResponse
  | HtmlResponse
  | TooSmall
  | TooLarge
  | ExistsAfterBuild
  | BadSignature
  | ExistsAfterAdjust
  | Stopped
  | Completed

text \<open>The Python return value of each exit.\<close>

fun retval :: "exit \<Rightarrow> bool" where
  "retval RetriesExhausted = False"
| "retval RequestFailed = False"
| "retval BadStatus = False"
| "retval InvalidResponse = False"
| "retval HtmlResponse = False"
| "retval TooSmall = True"
| "retval TooLarge = True"
| "retval ExistsAfterBuild = True"
| "retval BadSignature = False"
| "retval ExistsAfterAdjust = True"
| "retval Stopped = False"
| "retval Completed = True"

text \<open>
  The tri-state outcome of the specification.  The code returns \<open>True\<close> both
  for a download and for a size-policy skip; the skip is the \<open>return True\<close> of
  the two size checks.
\<close>

datatype transfer_outcome = Success | Skipped | Failed

definition outcome_of :: "exit \<Rightarrow> transfer_outcome" where
  "outcome_of x = (if x = TooSmall \<or> x = TooLarge then Skipped
                   else if retval x then Success else Failed)"

text \<open>
  How a part of the loop body ends: it falls through to the next statement,
  executes \<open>continue\<close>, \<open>break\<close> or \<open>return\<close>, or raises.
\<close>

datatype step =
    Next state
  | Continue state
  | Break state
  | Return exit state
  | Raise exn state

definition then_do :: "step \<Rightarrow> (state \<Rightarrow> step) \<Rightarrow> step" where
  "then_do m f = (case m of Next s \<Rightarrow> f s | Continue s \<Rightarrow> Continue s | Break s \<Rightarrow> Break s
                  | Return x s \<Rightarrow> Return x s | Raise e s \<Rightarrow> Raise e s)"

subsection \<open>Strings and dictionaries\<close>

definition digit :: "nat \<Rightarrow> char" where
  "digit n = char_of (48 + n)"

function str_nat :: "nat \<Rightarrow> string" where
  "str_nat n = (if n < 10 then [digit n] else str_nat (n div 10) @ [digit (n mod 10)])"
  by pat_completeness auto
termination
  by (relation "measure (\<lambda>n. n)") auto

declare str_nat.simps [simp del]

fun dict_set :: "'k \<Rightarrow> 'v \<Rightarrow> ('k \<times> 'v) list \<Rightarrow> ('k \<times> 'v) list" where
  "dict_set k v [] = [(k, v)]"
| "dict_set k v ((k', v') # d) = (if k = k' then (k, v) # d else (k', v') # dict_set k v d)"

fun dict_update :: "('k \<times> 'v) list \<Rightarrow> ('k \<times> 'v) list \<Rightarrow> ('k \<times> 'v) list" where
  "dict_update d [] = d"
| "dict_update d ((k, v) # e) = dict_update (dict_set k v d) e"

subsection \<open>Lines 121 to 135: the retry wait\<close>

definition exceeded :: "int \<Rightarrow> nat option \<Rightarrow> bool" where
  "exceeded t r = (case r of None \<Rightarrow> False | Some n \<Rightarrow> t > int n)"

definition retry_check :: "config \<Rightarrow> state \<Rightarrow> step" where
  "retry_check C s =
     (if tries s \<noteq> 0 then
        (let s1 = (if truthy_response (resp s) then (release_conn s)\<lparr>resp := None\<rparr> else s);
             s2 = warning (LRetry (msg s1) (tries s1) (retries C)) s1
         in if exceeded (tries s2) (retries C) then Return RetriesExhausted s2 else Next s2)
      else Next s)"

definition retry_sleep :: "config \<Rightarrow> attempt \<Rightarrow> state \<Rightarrow> state" where
  "retry_sleep C a s =
     (if tries s \<noteq> 0 then
        (let t = (of_int (tries s) :: rat);
             d = (if code s = 429 \<and> interval_429 C
                  then (if backoff_429 a > t then backoff_429 a else t)
                  else t)
         in (emit [Sleep d] s)\<lparr>code := 0\<rparr>)
      else s)"

subsection \<open>Lines 137 to 177: the request\<close>

definition request_headers :: "config \<Rightarrow> kwdict \<Rightarrow> nat \<Rightarrow> (string \<times> string) list" where
  "request_headers C K fsz =
     (let h = [(''Accept'', ''*/*'')];
          h = dict_update h (http_headers K);
          h = dict_update h (cfg_headers C)
      in if fsz \<noteq> 0 then dict_set ''Range'' (''bytes='' @ str_nat fsz @ ''-'') h else h)"

definition send_request :: "config \<Rightarrow> kwdict \<Rightarrow> state \<Rightarrow> state" where
  "send_request C K s0 =
     (let s = s0\<lparr>tries := tries s0 + 1, file_header := None\<rparr>;
          fsz = part_size s
      in emit [Request (case http_method K of None \<Rightarrow> ''GET'' | Some m \<Rightarrow> m) (url s)
                 (request_headers C K fsz) (http_data K)]
           (s\<lparr>file_size := fsz\<rparr>))"

subsection \<open>Lines 180 to 203: the status code\<close>

definition check_response :: "config \<Rightarrow> kwdict \<Rightarrow> externals \<Rightarrow> response \<Rightarrow> state \<Rightarrow> step" where
  "check_response C K X r s0 =
     (let s = s0\<lparr>code := status_code r\<rparr>
      in if code s = 200 \<or> code s \<in> set (http_expected_status K) then
           Next (s\<lparr>offset := 0, size_raw := map_of (headers r) ''content-length''\<rparr>)
         else if code s = 206 then
           (case map_of (headers r) ''content-range'' of
              None \<Rightarrow> Raise KeyError (s\<lparr>offset := file_size s\<rparr>)
            | Some v \<Rightarrow> Next (s\<lparr>offset := file_size s, size_raw := Some (rpartition_tail CHR ''/'' v)\<rparr>))
         else if code s = 416 \<and> file_size s \<noteq> 0 then Break s
         else
           (let s = s\<lparr>msg := MsgStatus (code s) (reason r) (url s)\<rparr>;
                s = (case detect_challenge X r of None \<Rightarrow> s | Some c \<Rightarrow> warning (LChallenge c) s)
            in if code s \<in> set (retry_codes C) \<or> (500 \<le> code s \<and> code s < 600) then Continue s
               else if (case http_retry K of None \<Rightarrow> False | Some f \<Rightarrow> f r) then Continue s
               else Return BadStatus (warning (LMsg (msg s)) (release_conn s))))"

subsection \<open>Lines 206 to 228: the validator and the HTML check\<close>

definition validate_response :: "config \<Rightarrow> kwdict \<Rightarrow> response \<Rightarrow> state \<Rightarrow> step" where
  "validate_response C K r s =
     (case (if validate C then http_validate K else None) of
        None \<Rightarrow> Next s
      | Some v \<Rightarrow>
         (case v r of
            VRaise \<Rightarrow> Raise ValidatorError (release_conn s)
          | VStr u \<Rightarrow> Continue (s\<lparr>url := u, tries := tries s - 1\<rparr>)
          | VFalsy \<Rightarrow> Return InvalidResponse (warning LInvalidResponse (release_conn s))
          | VTruthy \<Rightarrow> Next s))"

definition check_html :: "config \<Rightarrow> response \<Rightarrow> state \<Rightarrow> step" where
  "check_html C r s =
     (if validate_html C
         \<and> startswith (case map_of (headers r) ''content-type'' of None \<Rightarrow> [] | Some v \<Rightarrow> v) ''text/html''
         \<and> extension s \<notin> set [''html'', ''htm'']
      then Return HtmlResponse (warning (if history r then LRedirect (resp_url r) else LHtml) s)
      else Next s)"

subsection \<open>Lines 231 to 246: the declared size\<close>

definition below_min :: "config \<Rightarrow> int \<Rightarrow> int option" where
  "below_min C sz = (case minsize C of None \<Rightarrow> None
                     | Some m \<Rightarrow> if m \<noteq> 0 \<and> sz < m then Some m else None)"

definition above_max :: "config \<Rightarrow> int \<Rightarrow> int option" where
  "above_max C sz = (case maxsize C of None \<Rightarrow> None
                     | Some m \<Rightarrow> if m \<noteq> 0 \<and> sz > m then Some m else None)"

definition check_size :: "config \<Rightarrow> externals \<Rightarrow> state \<Rightarrow> step" where
  "check_size C X s0 =
     (let s = s0\<lparr>size_int := parse_int X (size_raw s0)\<rparr>
      in case size_int s of
           None \<Rightarrow> Next s
         | Some sz \<Rightarrow>
            (case below_min C sz of
               Some m \<Rightarrow> Return TooSmall ((warning (LTooSmall sz m) (release_conn s))\<lparr>temppath := []\<rparr>)
             | None \<Rightarrow>
                (case above_max C sz of
                   Some m \<Rightarrow> Return TooLarge ((warning (LTooLarge sz m) (release_conn s))\<lparr>temppath := []\<rparr>)
                 | None \<Rightarrow> Next s)))"

subsection \<open>Lines 248 to 276: the extension and the path\<close>

definition prepare_path :: "config \<Rightarrow> externals \<Rightarrow> attempt \<Rightarrow> response \<Rightarrow> state \<Rightarrow> step" where
  "prepare_path C X a r s0 =
     (let (s, b) = (if extension s0 = []
                    then (case find_extension X r of
                            (e, logs) \<Rightarrow> (set_extension e (emit (map (Log Warning) logs) s0), True))
                    else (s0, False));
          (s, b) = (if truthy_str (meta s) then (emit [SetMetadata] s, True) else (s, b))
      in if b then
           (let s = build_path s
            in if exists_built a
               then Return ExistsAfterBuild (emit [CloseResponse] (s\<lparr>temppath := []\<rparr>))
               else Next ((if part C \<and> truthy_str (meta s) then part_enable s else s)\<lparr>meta := None\<rparr>))
         else Next s)"

subsection \<open>Lines 278 to 304: the header probe\<close>

definition adjust_enabled :: "config \<Rightarrow> kwdict \<Rightarrow> bool" where
  "adjust_enabled C K = (case http_adjust_extension K of None \<Rightarrow> adjust_extension C | Some b \<Rightarrow> b)"

definition in_signature_checks :: "string \<Rightarrow> bool" where
  "in_signature_checks e = (map_of SIGNATURE_CHECKS e \<noteq> None)"

definition signature_message :: "string option \<Rightarrow> string" where
  "signature_message res = (case res of Some (c # cs) \<Rightarrow> c # cs | _ \<Rightarrow> ''Invalid file signature bytes'')"

definition adjust_probe :: "bool \<Rightarrow> attempt \<Rightarrow> bytes \<Rightarrow> state \<Rightarrow> step" where
  "adjust_probe validate_ext a h s =
     (if validate_ext then
        (case adjust_extension_impl s h of
           Inl e \<Rightarrow> Raise e s
         | Inr (changed, s') \<Rightarrow>
            (if changed \<and> exists_adjusted a
             then Return ExistsAfterAdjust (emit [CloseResponse] (s'\<lparr>temppath := []\<rparr>))
             else Next s'))
      else Next s)"

definition check_header :: "config \<Rightarrow> kwdict \<Rightarrow> attempt \<Rightarrow> state \<Rightarrow> step" where
  "check_header C K a s0 =
     (let validate_sig = http_signature K;
          validate_ext = (adjust_enabled C K \<and> in_signature_checks (extension s0))
      in if offset s0 = 0 \<and> (validate_ext \<or> validate_sig \<noteq> None) then
           (case probe a of
              ProbeError m \<Rightarrow> Continue (s0\<lparr>msg := MsgText m\<rparr>)
            | Probe h \<Rightarrow>
               (let s = s0\<lparr>file_header := Some h\<rparr>
                in case validate_sig of
                     None \<Rightarrow> adjust_probe validate_ext a h s
                   | Some f \<Rightarrow>
                      (case f h of
                         SigOther res \<Rightarrow>
                           Return BadSignature (warning (LSignature (signature_message res)) (release_conn s))
                       | SigTrue \<Rightarrow> adjust_probe validate_ext a h s)))
         else Next s0)"

subsection \<open>Lines 306 to 350: writing the file\<close>

text \<open>
  Modelled from the spec: \<open>pathfmt.open(mode)\<close> is not part of the sources at
  hand.  Mode \<open>w+b\<close> creates or truncates the temp file; mode \<open>r+b\<close> opens it as
  it is and yields \<open>None\<close> when the file is not there.
\<close>

definition apply_event :: "event \<Rightarrow> state \<Rightarrow> state" where
  "apply_event e s = (case e of Write d \<Rightarrow> fp_write d s | _ \<Rightarrow> emit [e] s)"

definition apply_events :: "event list \<Rightarrow> state \<Rightarrow> state" where
  "apply_events es s = foldl (\<lambda>s e. apply_event e s) s es"

definition use_rate :: "config \<Rightarrow> bool" where
  "use_rate C = (rate C \<noteq> None \<or> progress C \<noteq> None)"

definition run_receive :: "config \<Rightarrow> externals \<Rightarrow> attempt \<Rightarrow> state \<Rightarrow> event list \<times> exn option" where
  "run_receive C X a s =
     (if use_rate C
      then receive_rate X (rate C) (progress C) (size_int s) (offset s) 0 (chunks a)
      else receive (chunks a))"

text \<open>
  The \<open>except\<close> clauses of lines 337 to 342 for what \<open>self.receive\<close> raises
  itself; any other exception passes through.
\<close>

definition receive_raised :: "exn \<Rightarrow> state \<Rightarrow> step" where
  "receive_raised e s =
     (if e = StopExtraction then Return Stopped (emit [CloseResponse] s)
      else if e = ControlException then Raise ControlException (emit [CloseResponse] s)
      else Raise e s)"

text \<open>
  The end of the \<open>content\<close> iterator, lines 333 to 336, and the size check of
  lines 345 to 350.
\<close>

definition after_receive :: "attempt \<Rightarrow> state \<Rightarrow> step" where
  "after_receive a s =
     (case stream_end a of
        ReadError m \<Rightarrow> Continue (emit [StderrNewline] (s\<lparr>msg := MsgText m\<rparr>))
      | EndOfStream \<Rightarrow>
         (case size_int s of
            None \<Rightarrow> Break s
          | Some sz \<Rightarrow>
             (if sz \<noteq> 0 \<and> int (fpos s) < sz
              then Continue (emit [StderrNewline] (s\<lparr>msg := MsgSizeMismatch (fpos s) sz\<rparr>))
              else Break s)))"

definition write_head :: "config \<Rightarrow> kwdict \<Rightarrow> state \<Rightarrow> step" where
  "write_head C K s =
     (case file_header s of
        Some (c # cs) \<Rightarrow> Next ((fp_write (c # cs) s)\<lparr>offset := offset s + length (c # cs)\<rparr>)
      | _ \<Rightarrow>
         (if offset s \<noteq> 0 then
            (if adjust_enabled C K \<and> in_signature_checks (extension s) then
               (case adjust_extension_impl s (slice 0 16 (case tempfile s of None \<Rightarrow> [] | Some c \<Rightarrow> c)) of
                  Inl e \<Rightarrow> Raise e s
                | Inr (changed, s') \<Rightarrow> Next (s'\<lparr>fpos := offset s'\<rparr>))
             else Next (s\<lparr>fpos := offset s\<rparr>))
          else Next s))"

definition transfer :: "config \<Rightarrow> kwdict \<Rightarrow> externals \<Rightarrow> attempt \<Rightarrow> state \<Rightarrow> step" where
  "transfer C K X a s0 =
     (let (mode, s) = (if offset s0 = 0
                       then (''w+b'', if file_size s0 \<noteq> 0 then debug LUnableResume s0 else s0)
                       else (''r+b'', debug (LResuming (offset s0)) s0));
          s = emit [OpenFile mode] (s\<lparr>downloading := True\<rparr>)
      in if mode = ''r+b'' \<and> (part_gone a \<or> tempfile s = None) then Break s
         else
           then_do (write_head C K (if mode = ''w+b'' then s\<lparr>tempfile := Some [], fpos := 0\<rparr>
                                    else s\<lparr>fpos := 0\<rparr>))
             (\<lambda>s. let s = emit [OutStart] s
                  in case run_receive C X a s of
                       (evs, Some e) \<Rightarrow> receive_raised e (apply_events evs s)
                     | (evs, None) \<Rightarrow> after_receive a (apply_events evs s)))"

subsection \<open>The loop\<close>

definition attempt_body :: "config \<Rightarrow> kwdict \<Rightarrow> externals \<Rightarrow> attempt \<Rightarrow> state \<Rightarrow> step" where
  "attempt_body C K X a s0 =
     (let s = send_request C K s0
      in case request_result a of
           ConnectionError m \<Rightarrow> Continue (s\<lparr>msg := MsgText m\<rparr>)
         | Timeout m \<Rightarrow> Continue (s\<lparr>msg := MsgText m\<rparr>)
         | OtherException m \<Rightarrow> Return RequestFailed (warning (LExc m) s)
         | Responded r \<Rightarrow>
            then_do (check_response C K X r (s\<lparr>resp := Some r\<rparr>)) (\<lambda>s.
            then_do (validate_response C K r s) (\<lambda>s.
            then_do (check_html C r s) (\<lambda>s.
            then_do (check_size C X s) (\<lambda>s.
            then_do (prepare_path C X a r s) (\<lambda>s.
            then_do (check_header C K a s) (\<lambda>s.
            transfer C K X a s)))))))"

text \<open>Lines 352 to 361, after the loop.\<close>

datatype result = Returned exit | Raised exn

definition finish :: "config \<Rightarrow> kwdict \<Rightarrow> state \<Rightarrow> result \<times> state" where
  "finish C K s0 =
     (let s = s0\<lparr>downloading := False\<rparr>
      in if mtime C then
           (case http_lastmodified K of
              Some v \<Rightarrow> (Returned Completed, s\<lparr>mtime_http := Some (Some v)\<rparr>)
            | None \<Rightarrow>
               (case resp s of
                  None \<Rightarrow> (Raised AttributeError, s)
                | Some r \<Rightarrow> (Returned Completed, s\<lparr>mtime_http := Some (map_of (headers r) ''last-modified'')\<rparr>)))
         else (Returned Completed, s\<lparr>mtime_http := Some None\<rparr>))"

text \<open>
  The \<open>while True\<close> loop, one element of the script per iteration that issues a
  request.  \<open>None\<close> means that the script ended before the loop did.
\<close>

fun download_loop :: "config \<Rightarrow> kwdict \<Rightarrow> externals \<Rightarrow> state \<Rightarrow> attempt list \<Rightarrow> (result \<times> state) option" where
  "download_loop C K X s [] =
     (case retry_check C s of Return x s' \<Rightarrow> Some (Returned x, s') | _ \<Rightarrow> None)"
| "download_loop C K X s (a # script) =
     (case then_do (retry_check C s) (\<lambda>s. attempt_body C K X a (retry_sleep C a s)) of
        Next s' \<Rightarrow> download_loop C K X s' script
      | Continue s' \<Rightarrow> download_loop C K X s' script
      | Break s' \<Rightarrow> Some (finish C K s')
      | Return x s' \<Rightarrow> Some (Returned x, s')
      | Raise e s' \<Rightarrow> Some (Raised e, s'))"

definition download_impl :: "config \<Rightarrow> kwdict \<Rightarrow> externals \<Rightarrow> state \<Rightarrow> attempt list \<Rightarrow> (result \<times> state) option" where
  "download_impl C K X s0 script =
     (let s = s0\<lparr>resp := None, tries := 0, code := 0, msg := MsgEmpty, meta := metadata C\<rparr>;
          s = (if part C \<and> \<not> truthy_str (meta s) then part_enable s else s)
      in download_loop C K X s script)"

text \<open>
  Modelled from the spec: \<open>util.remove_file\<close> is not part of the sources at
  hand; it unlinks the path and ignores a failure, so the empty path removes
  nothing.
\<close>

definition remove_file :: "string \<Rightarrow> state \<Rightarrow> state" where
  "remove_file p s = emit [RemoveFile p] (if p = [] then s else s\<lparr>tempfile := None\<rparr>)"

definition download :: "config \<Rightarrow> kwdict \<Rightarrow> externals \<Rightarrow> state \<Rightarrow> attempt list \<Rightarrow> (result \<times> state) option" where
  "download C K X s0 script =
     (case download_impl C K X s0 script of
        None \<Rightarrow> None
      | Some (res, s) \<Rightarrow>
         (let s = (case res of
                     Raised e \<Rightarrow> debug LExcInfo (if downloading s then emit [StderrNewline] s else s)
                   | Returned x \<Rightarrow> s)
          in Some (res, if downloading s \<and> \<not> part C then remove_file (temppath s) s else s)))"

section \<open>Statements of the specification, for comparison\<close>

text \<open>
  The MIME type the specification describes: the Content-Type (\<open>image/jpeg\<close>
  when the header is absent, as in the source), stripped of any parameters after
  \<open>;\<close>, with \<open>image/\<close> in front when it has no slash.
\<close>

definition spec_mime_type :: "response \<Rightarrow> string" where
  "spec_mime_type r =
     (let ctype = (case map_of (headers r) ''content-type'' of None \<Rightarrow> ''image/jpeg'' | Some v \<Rightarrow> v);
          stripped = takeWhile (\<lambda>c. c \<noteq> CHR '';'') ctype
      in if CHR ''/'' \<in> set stripped then stripped else ''image/'' @ stripped)"

text \<open>
  The chunks that a receiver writes: those up to and including the first one
  after which the download flag is set; that flag, if any; the bytes of the
  chunks written; and each chunk written with the value of
  \<open>bytes_downloaded\<close> after it.  \<open>progress_report\<close> is the progress update that
  a chunk gives when the elapsed time since the start of the stream exceeds the
  interval.
\<close>

fun upto_flag :: "chunk list \<Rightarrow> chunk list" where
  "upto_flag [] = []"
| "upto_flag ((t, d, f) # rest) = (t, d, f) # (if f = None then upto_flag rest else [])"

fun first_flag :: "chunk list \<Rightarrow> flag option" where
  "first_flag [] = None"
| "first_flag ((t, d, f) # rest) = (case f of Some g \<Rightarrow> Some g | None \<Rightarrow> first_flag rest)"

definition body :: "chunk list \<Rightarrow> bytes" where
  "body cs = concat (map (\<lambda>(t, d, f). d) (upto_flag cs))"

fun running :: "nat \<Rightarrow> chunk list \<Rightarrow> (rat \<times> bytes \<times> flag option \<times> nat) list" where
  "running bd [] = []"
| "running bd ((t, d, f) # rest) = (t, d, f, bd + length d) # running (bd + length d) rest"

definition progress_report ::
  "externals \<Rightarrow> rat option \<Rightarrow> int option \<Rightarrow> nat \<Rightarrow> rat \<Rightarrow> nat \<Rightarrow> event list" where
  "progress_report X prog bytes_total bytes_start t n =
     (case prog of
        None \<Rightarrow> []
      | Some p \<Rightarrow> if t > p
                  then [Progress bytes_total (bytes_start + n) (py_int (float_div X (of_nat n) t))]
                  else [])"

fun is_write_or_progress :: "event \<Rightarrow> bool" where
  "is_write_or_progress (Write d) = True"
| "is_write_or_progress (Progress a b c) = True"
| "is_write_or_progress e = False"

subsection \<open>Observations on traces and attempts\<close>

text \<open>
  The request attempts and the sleeps of a trace, in order.  The linear schedule
  for a retry limit \<open>r\<close> is \<open>r + 1\<close> attempts, attempt \<open>n + 1\<close> after a sleep of
  \<open>n\<close> seconds.
\<close>

datatype mark = Attempt | Wait rat

fun marks :: "event list \<Rightarrow> mark list" where
  "marks [] = []"
| "marks (Request m u h d # es) = Attempt # marks es"
| "marks (Sleep d # es) = Wait d # marks es"
| "marks (e # es) = marks es"

definition linear_schedule :: "nat \<Rightarrow> mark list" where
  "linear_schedule r = Attempt # concat (map (\<lambda>n. [Wait (of_nat n), Attempt]) [1..<Suc r])"

text \<open>The modes of the files opened and the bytes written in a trace.\<close>

fun opened :: "event list \<Rightarrow> string list" where
  "opened [] = []"
| "opened (OpenFile m # es) = m # opened es"
| "opened (e # es) = opened es"

fun written :: "event list \<Rightarrow> bytes" where
  "written [] = []"
| "written (Write d # es) = d @ written es"
| "written (e # es) = written es"

fun warnings :: "event list \<Rightarrow> logrec list" where
  "warnings [] = []"
| "warnings (Log Warning l # es) = l # warnings es"
| "warnings (e # es) = warnings es"

text \<open>
  A status that the loop retries: not accepted as content (200, an expected
  code, 206), not the 416 of a complete partial file, and in the configured
  retry codes or a 5xx.  \<open>retry_wanted\<close> adds the per-file retry predicate.
\<close>

definition retryable :: "config \<Rightarrow> kwdict \<Rightarrow> nat \<Rightarrow> response \<Rightarrow> bool" where
  "retryable C K fsz r =
     (status_code r \<noteq> 200 \<and> status_code r \<notin> set (http_expected_status K) \<and>
      status_code r \<noteq> 206 \<and> \<not> (status_code r = 416 \<and> fsz \<noteq> 0) \<and>
      (status_code r \<in> set (retry_codes C) \<or> (500 \<le> status_code r \<and> status_code r < 600)))"

definition retryable_attempt :: "config \<Rightarrow> kwdict \<Rightarrow> nat \<Rightarrow> attempt \<Rightarrow> bool" where
  "retryable_attempt C K fsz a =
     (case request_result a of Responded r \<Rightarrow> retryable C K fsz r | _ \<Rightarrow> False)"

definition linear_backoff :: "config \<Rightarrow> attempt \<Rightarrow> bool" where
  "linear_backoff C a =
     (case request_result a of
        Responded r \<Rightarrow> \<not> (status_code r = 429 \<and> interval_429 C)
      | _ \<Rightarrow> True)"

definition retry_wanted :: "config \<Rightarrow> kwdict \<Rightarrow> response \<Rightarrow> bool" where
  "retry_wanted C K r =
     (status_code r \<in> set (retry_codes C) \<or> (500 \<le> status_code r \<and> status_code r < 600) \<or>
      (case http_retry K of None \<Rightarrow> False | Some f \<Rightarrow> f r))"

text \<open>
  A response whose status is accepted as content without raising, the size it
  declares (Content-Length for full content, the total of Content-Range for
  partial content), and whether it passes the validator and the HTML check for
  a destination with extension \<open>e\<close>.
\<close>

definition accepted_status :: "kwdict \<Rightarrow> response \<Rightarrow> bool" where
  "accepted_status K r =
     (status_code r = 200 \<or> status_code r \<in> set (http_expected_status K) \<or>
      (status_code r = 206 \<and> map_of (headers r) ''content-range'' \<noteq> None))"

definition declared_size :: "kwdict \<Rightarrow> externals \<Rightarrow> response \<Rightarrow> int option" where
  "declared_size K X r =
     (if status_code r = 200 \<or> status_code r \<in> set (http_expected_status K)
      then parse_int X (map_of (headers r) ''content-length'')
      else if status_code r = 206
      then (case map_of (headers r) ''content-range'' of
              None \<Rightarrow> None
            | Some v \<Rightarrow> parse_int X (Some (rpartition_tail CHR ''/'' v)))
      else None)"

definition passes_validation :: "config \<Rightarrow> kwdict \<Rightarrow> string \<Rightarrow> response \<Rightarrow> bool" where
  "passes_validation C K e r =
     ((case (if validate C then http_validate K else None) of
         None \<Rightarrow> True | Some v \<Rightarrow> v r = VTruthy) \<and>
      \<not> (validate_html C \<and>
         startswith (case map_of (headers r) ''content-type'' of None \<Rightarrow> [] | Some v \<Rightarrow> v) ''text/html'' \<and>
         e \<notin> set [''html'', ''htm'']))"

definition outside_limits :: "config \<Rightarrow> int option \<Rightarrow> bool" where
  "outside_limits C sz = (case sz of None \<Rightarrow> False
                          | Some n \<Rightarrow> below_min C n \<noteq> None \<or> above_max C n \<noteq> None)"

text \<open>The state in which a part of the loop body ends.\<close>

fun step_state :: "step \<Rightarrow> state" where
  "step_state (Next s) = s"
| "step_state (Continue s) = s"
| "step_state (Break s) = s"
| "step_state (Return x s) = s"
| "step_state (Raise e s) = s"

text \<open>The warning that names the cause of an exit, and whether it is the last event.\<close>

definition cause_logged :: "exit \<Rightarrow> logrec \<Rightarrow> bool" where
  "cause_logged x l =
     (case x of
        RetriesExhausted \<Rightarrow> (case l of LRetry m t r \<Rightarrow> True | _ \<Rightarrow> False)
      | RequestFailed \<Rightarrow> (case l of LExc m \<Rightarrow> True | _ \<Rightarrow> False)
      | BadStatus \<Rightarrow> (case l of LMsg m \<Rightarrow> (case m of MsgStatus c r u \<Rightarrow> True | _ \<Rightarrow> False) | _ \<Rightarrow> False)
      | InvalidResponse \<Rightarrow> (case l of LInvalidResponse \<Rightarrow> True | _ \<Rightarrow> False)
      | HtmlResponse \<Rightarrow> (case l of LRedirect u \<Rightarrow> True | LHtml \<Rightarrow> True | _ \<Rightarrow> False)
      | TooSmall \<Rightarrow> (case l of LTooSmall n m \<Rightarrow> True | _ \<Rightarrow> False)
      | TooLarge \<Rightarrow> (case l of LTooLarge n m \<Rightarrow> True | _ \<Rightarrow> False)
      | BadSignature \<Rightarrow> (case l of LSignature m \<Rightarrow> True | _ \<Rightarrow> False)
      | _ \<Rightarrow> False)"

definition warned :: "exit \<Rightarrow> state \<Rightarrow> bool" where
  "warned x s = (case rev (trace s) of Log Warning l # es \<Rightarrow> cause_logged x l | _ \<Rightarrow> False)"

text \<open>
  What holds when the loop body returns through exit \<open>x\<close>: the exit is not the
  end of the function; a StopExtraction closes the response last; every other
  exit except the two for an existing final path logs its cause last; an exit
  that returns \<open>True\<close> has cleared the temp path; a size exit has a declared size
  outside the limits.
\<close>

definition exit_post :: "config \<Rightarrow> exit \<Rightarrow> state \<Rightarrow> bool" where
  "exit_post C x s =
     ((x \<noteq> Completed) \<and>
      (x = Stopped \<longrightarrow> (case rev (trace s) of CloseResponse # es \<Rightarrow> True | _ \<Rightarrow> False)) \<and>
      (x \<noteq> Stopped \<and> x \<noteq> ExistsAfterBuild \<and> x \<noteq> ExistsAfterAdjust \<longrightarrow> warned x s) \<and>
      (retval x \<longrightarrow> temppath s = []) \<and>
      (x = TooSmall \<or> x = TooLarge \<longrightarrow> outside_limits C (size_int s)))"

text \<open>The debug log records of a trace.\<close>

fun debugs :: "event list \<Rightarrow> logrec list" where
  "debugs [] = []"
| "debugs (Log Debug l # es) = l # debugs es"
| "debugs (e # es) = debugs es"






text \<open>
  The sleep of the retry wait as the specification gives it: after \<open>n\<close> tries,
  \<open>n\<close> seconds, and the larger of \<open>n\<close> and the value \<open>b\<close> of the 429 backoff
  function when the last status code \<open>c\<close> was 429 and such a function is
  configured.  The schedule of a loop in which every attempt is retried: the
  first attempt, then a wait and an attempt for each try up to the limit \<open>r\<close>.
\<close>

definition retry_wait :: "config \<Rightarrow> int \<Rightarrow> rat \<Rightarrow> int \<Rightarrow> rat" where
  "retry_wait C c b n = (if c = 429 \<and> interval_429 C then max b (of_int n) else of_int n)"

definition status_of :: "attempt \<Rightarrow> int" where
  "status_of a = (case request_result a of Responded r \<Rightarrow> status_code r | _ \<Rightarrow> 0)"

fun backoff_schedule :: "config \<Rightarrow> nat \<Rightarrow> nat \<Rightarrow> int \<Rightarrow> attempt list \<Rightarrow> mark list" where
  "backoff_schedule C r n c [] = []"
| "backoff_schedule C r n c (a # rest) =
     (if r < n then []
      else Wait (retry_wait C c (backoff_429 a) (int n)) # Attempt #
           backoff_schedule C r (Suc n) (status_of a) rest)"

definition retry_schedule :: "config \<Rightarrow> nat \<Rightarrow> attempt list \<Rightarrow> mark list" where
  "retry_schedule C r script =
     (case script of [] \<Rightarrow> [] | a # rest \<Rightarrow> Attempt # backoff_schedule C r 1 (status_of a) rest)"

section \<open>Concrete inputs\<close>

definition png_response :: response where
  "png_response = \<lparr>status_code = 200, reason = ''OK'',
     headers = [(''content-type'', ''image/png; charset=binary'')], history = False,
     resp_url = ''http://example.org/a'', chunked = False\<rparr>"

definition no_externals :: externals where
  "no_externals = \<lparr>parse_int = (\<lambda>v. None), guess_extension = (\<lambda>m. None),
     detect_challenge = (\<lambda>r. None), float_div = (\<lambda>a b. a / b), float_sub = (\<lambda>a b. a - b)\<rparr>"

text \<open>
  A destination with the given URL, extension, temp path and temp file, before
  the first call of the downloader.
\<close>

definition initial_state :: "string \<Rightarrow> string \<Rightarrow> string \<Rightarrow> bytes option \<Rightarrow> state" where
  "initial_state u e p f =
     \<lparr>tries = 0, code = 0, msg = MsgEmpty, resp = None, url = u, meta = None, file_size = 0,
      file_header = None, offset = 0, size_raw = None, size_int = None, downloading = False,
      extension = e, temppath = p, tempfile = f, fpos = 0, mtime_http = None, trace = []\<rparr>"

text \<open>An 11-byte header: the ICO signature followed by \<open>ftypavi\<close>.\<close>

definition ico_avif_header :: bytes where
  "ico_avif_header = [CHR 0x00, CHR 0x00, CHR 0x01, CHR 0x00] @ ''ftypavi''"

text \<open>
  A configuration with the defaults of \<open>__init__\<close> and a given retry limit,
  retry codes and 429 backoff; a file without overrides; a response with a
  status and headers; an attempt that answers with a response and then streams
  nothing.
\<close>

definition basic_config :: "nat \<Rightarrow> int list \<Rightarrow> bool \<Rightarrow> config" where
  "basic_config r codes b =
     \<lparr>part = True, metadata = None, adjust_extension = True, validate = True,
      validate_html = True, cfg_headers = [], minsize = None, maxsize = None,
      retries = Some r, retry_codes = codes, interval_429 = b, mtime = True,
      rate = None, progress = Some 3\<rparr>"

definition plain_kwdict :: kwdict where
  "plain_kwdict =
     \<lparr>http_expected_status = [], http_adjust_extension = None, http_headers = [],
      http_method = None, http_data = None, http_retry = None, http_validate = None,
      http_signature = None, http_lastmodified = None\<rparr>"

definition answer :: "int \<Rightarrow> (string \<times> string) list \<Rightarrow> response" where
  "answer c h = \<lparr>status_code = c, reason = ''R'', headers = h, history = False,
     resp_url = ''http://example.org/a'', chunked = False\<rparr>"

definition responding :: "response \<Rightarrow> attempt" where
  "responding r = \<lparr>backoff_429 = 60, request_result = Responded r, exists_built = False,
     exists_adjusted = False, probe = Probe [], chunks = [], stream_end = EndOfStream,
     part_gone = False\<rparr>"

definition decimal_externals :: externals where
  "decimal_externals =
     \<lparr>parse_int = (\<lambda>v. if v = Some ''5'' then Some 5 else if v = Some ''10'' then Some 10
                         else if v = Some ''2000'' then Some 2000 else None),
      guess_extension = (\<lambda>m. None), detect_challenge = (\<lambda>r. None),
      float_div = (\<lambda>a b. a / b), float_sub = (\<lambda>a b. a - b)\<rparr>"

text \<open>A configuration with a minimum file size of 100 bytes and no retries.\<close>

definition limited_config :: config where
  "limited_config = (basic_config 0 [] False)\<lparr>minsize := Some 100\<rparr>"

text \<open>A file whose expected status codes include 416.\<close>

definition expecting_416 :: kwdict where
  "expecting_416 = plain_kwdict\<lparr>http_expected_status := [416]\<rparr>"

text \<open>
  A file whose validator returns the value of the header \<open>x-moved\<close> as the new
  URL and accepts a response without that header.
\<close>

definition moved_kwdict :: kwdict where
  "moved_kwdict = plain_kwdict\<lparr>http_validate :=
     Some (\<lambda>r. case map_of (headers r) ''x-moved'' of Some u \<Rightarrow> VStr u | None \<Rightarrow> VTruthy)\<rparr>"

section \<open>Lemmas about the loop\<close>

subsection \<open>Retries\<close>

lemma marks_append: "marks (xs @ ys) = marks xs @ marks ys"
  by (induction xs rule: marks.induct) auto

lemma attempt_retryable:
  assumes "retryable_attempt C K (part_size s) a"
  shows "\<exists>s' r. attempt_body C K X a s = Continue s' \<and> request_result a = Responded r \<and> tries s' = tries s + 1 \<and>
           code s' = status_code r \<and> tempfile s' = tempfile s \<and>
           marks (trace s') = marks (trace s) @ [Attempt]"
proof -
  from assms obtain r where r: "request_result a = Responded r" "retryable C K (part_size s) r"
    by (auto simp: retryable_attempt_def split: conn_result.splits)
  then show ?thesis
    by (auto simp: attempt_body_def send_request_def check_response_def then_do_def emit_def
          warning_def retryable_def Let_def marks_append part_size_def split: option.splits)
qed

lemma retry_check_marks:
  "retry_check C s = Next s' \<Longrightarrow> tries s' = tries s \<and> code s' = code s \<and> tempfile s' = tempfile s \<and> marks (trace s') = marks (trace s)"
  "retry_check C s = Return x s' \<Longrightarrow> x = RetriesExhausted \<and> marks (trace s') = marks (trace s)"
  by (auto simp: retry_check_def Let_def warning_def release_conn_def emit_def marks_append split: if_splits)

lemma retry_check_Next:
  "tries s = 0 \<or> \<not> exceeded (tries s) (retries C) \<Longrightarrow> \<exists>s'. retry_check C s = Next s'"
  by (auto simp: retry_check_def Let_def warning_def release_conn_def emit_def)

lemma retry_check_Return:
  "tries s \<noteq> 0 \<Longrightarrow> exceeded (tries s) (retries C) \<Longrightarrow> \<exists>s'. retry_check C s = Return RetriesExhausted s'"
  by (auto simp: retry_check_def Let_def warning_def release_conn_def emit_def)

lemma retry_sleep_marks:
  "tries s = int k \<Longrightarrow> code s \<noteq> 429 \<or> \<not> interval_429 C \<Longrightarrow>
   tries (retry_sleep C a s) = tries s \<and> tempfile (retry_sleep C a s) = tempfile s \<and>
   marks (trace (retry_sleep C a s)) = marks (trace s) @ (if k = 0 then [] else [Wait (of_nat k)])"
  by (auto simp: retry_sleep_def Let_def emit_def marks_append)

lemma loop_retry:
  assumes "retries C = Some r"
  shows "\<forall>a \<in> set script. retryable_attempt C K (part_size s) a \<and> linear_backoff C a \<Longrightarrow>
     tries s = int k \<Longrightarrow> (k \<noteq> 0 \<longrightarrow> code s \<noteq> 429 \<or> \<not> interval_429 C) \<Longrightarrow> r < length script + k \<Longrightarrow>
     \<exists>s'. download_loop C K X s script = Some (Returned RetriesExhausted, s') \<and>
          marks (trace s') = marks (trace s) @ (if k = 0 then [Attempt] else []) @
             concat (map (\<lambda>n. [Wait (of_nat n), Attempt]) [max k 1..<Suc r])"
proof (induction script arbitrary: s k)
  case Nil
  then have k: "k \<noteq> 0" "exceeded (tries s) (retries C)" using assms by (auto simp: exceeded_def)
  then obtain s' where "retry_check C s = Return RetriesExhausted s'"
    using retry_check_Return [of s C] Nil by auto
  with Nil k show ?case using retry_check_marks(2) [of C s RetriesExhausted s'] by auto
next
  case (Cons a script)
  show ?case
  proof (cases "k \<noteq> 0 \<and> r < k")
    case True
    then have k: "tries s \<noteq> 0" "exceeded (tries s) (retries C)" using assms Cons.prems by (auto simp: exceeded_def)
    then obtain s' where "retry_check C s = Return RetriesExhausted s'"
      using retry_check_Return [of s C] by auto
    with True show ?thesis using retry_check_marks(2) [of C s RetriesExhausted s']
      by (auto simp: then_do_def)
  next
    case False
    then have "tries s = 0 \<or> \<not> exceeded (tries s) (retries C)" using assms Cons.prems by (auto simp: exceeded_def)
    then obtain s1 where s1: "retry_check C s = Next s1" using retry_check_Next by blast
    note m1 = retry_check_marks(1) [OF s1]
    let ?s2 = "retry_sleep C a s1"
    have c2: "code s1 \<noteq> 429 \<or> \<not> interval_429 C \<or> k = 0" using Cons.prems m1 by auto
    have m2: "tries ?s2 = tries s \<and> tempfile ?s2 = tempfile s \<and>
       marks (trace ?s2) = marks (trace s) @ (if k = 0 then [] else [Wait (of_nat k)])"
      using m1 Cons.prems c2 by (auto simp: retry_sleep_def Let_def emit_def marks_append)
    have ps: "part_size ?s2 = part_size s" using m2 by (simp add: part_size_def)
    have ra: "retryable_attempt C K (part_size ?s2) a" "linear_backoff C a" using Cons.prems ps by auto
    from attempt_retryable [OF ra(1), of X] obtain s3 rr where s3:
      "attempt_body C K X a ?s2 = Continue s3" "request_result a = Responded rr" "tries s3 = tries ?s2 + 1"
      "code s3 = status_code rr" "tempfile s3 = tempfile ?s2" "marks (trace s3) = marks (trace ?s2) @ [Attempt]"
      by blast
    have step: "download_loop C K X s (a # script) = download_loop C K X s3 script"
      using s1 s3 by (simp add: then_do_def)
    have t3: "tries s3 = int (Suc k)" using s3 m2 Cons.prems by simp
    have c3: "code s3 \<noteq> 429 \<or> \<not> interval_429 C" using s3 ra(2) by (auto simp: linear_backoff_def)
    have ps3: "part_size s3 = part_size s" using s3 m2 by (simp add: part_size_def)
    from Cons.IH [of s3 "Suc k"] Cons.prems t3 c3 ps3
    obtain s' where s': "download_loop C K X s3 script = Some (Returned RetriesExhausted, s')"
      "marks (trace s') = marks (trace s3) @ concat (map (\<lambda>n. [Wait (of_nat n), Attempt]) [Suc k..<Suc r])"
      by auto
    have kr: "k \<le> r" using False by auto
    show ?thesis
    proof (cases "k = 0")
      case True
      with s' s3 m2 step show ?thesis by (auto simp: )
    next
      case False
      then have mk: "max k 1 = k" by simp
      have "[k..<Suc r] = k # [Suc k..<Suc r]" using kr by (simp add: upt_rec [of k])
      with s' s3 m2 step False mk show ?thesis by simp
    qed
  qed
qed


subsection \<open>Exits\<close>

lemma then_do_Return:
  "then_do m f = Return x s' \<Longrightarrow> m = Return x s' \<or> (\<exists>s1. m = Next s1 \<and> f s1 = Return x s')"
  by (cases m) (auto simp: then_do_def)

lemma retry_check_Return_post:
  "retry_check C s = Return x s' \<Longrightarrow> exit_post C x s'"
  by (auto simp: retry_check_def Let_def exit_post_def warned_def cause_logged_def warning_def
        release_conn_def emit_def split: if_splits)

lemma check_response_Return:
  "check_response C K X r s = Return x s' \<Longrightarrow> exit_post C x s'"
  by (auto simp: check_response_def Let_def exit_post_def warned_def cause_logged_def warning_def
        release_conn_def emit_def split: if_splits option.splits)

lemma validate_response_Return:
  "validate_response C K r s = Return x s' \<Longrightarrow> exit_post C x s'"
  by (auto simp: validate_response_def Let_def exit_post_def warned_def cause_logged_def warning_def
        release_conn_def emit_def split: if_splits option.splits vresult.splits)

lemma check_html_Return:
  "check_html C r s = Return x s' \<Longrightarrow> exit_post C x s'"
  by (auto simp: check_html_def Let_def exit_post_def warned_def cause_logged_def warning_def
        release_conn_def emit_def split: if_splits option.splits)

lemma check_size_Return:
  "check_size C X s = Return x s' \<Longrightarrow> exit_post C x s'"
  by (auto simp: check_size_def Let_def exit_post_def warned_def cause_logged_def warning_def
        release_conn_def emit_def outside_limits_def split: if_splits option.splits)

lemma prepare_path_Return:
  "prepare_path C X a r s = Return x s' \<Longrightarrow> exit_post C x s'"
  by (auto simp: prepare_path_def Let_def exit_post_def emit_def build_path_def
        split: if_splits option.splits prod.splits)

lemma adjust_probe_Return:
  "adjust_probe v a h s = Return x s' \<Longrightarrow> exit_post C x s'"
  by (auto simp: adjust_probe_def Let_def exit_post_def emit_def
        split: if_splits sum.splits prod.splits)

lemma check_header_Return:
  "check_header C K a s = Return x s' \<Longrightarrow> exit_post C x s'"
  by (auto simp: check_header_def Let_def exit_post_def warned_def cause_logged_def warning_def
        release_conn_def emit_def dest: adjust_probe_Return [where C = C]
        split: if_splits option.splits probe_result.splits sigresult.splits)

lemma after_receive_Return:
  "after_receive a s = Return x s' \<Longrightarrow> exit_post C x s'"
  by (auto simp: after_receive_def exit_post_def emit_def split: stream_end.splits option.splits if_splits)

lemma receive_raised_Return:
  "receive_raised e s = Return x s' \<Longrightarrow> exit_post C x s'"
  by (auto simp: receive_raised_def exit_post_def emit_def split: if_splits)

lemma transfer_Return:
  "transfer C K X a s = Return x s' \<Longrightarrow> exit_post C x s'"
  by (auto simp: transfer_def Let_def write_head_def then_do_def
        dest: after_receive_Return [where C = C] receive_raised_Return [where C = C]
        split: if_splits option.splits prod.splits step.splits list.splits sum.splits)

lemma attempt_body_Return:
  assumes "attempt_body C K X a s = Return x s'"
  shows "exit_post C x s'"
proof (cases "request_result a")
  case (Responded r)
  with assms show ?thesis
    unfolding attempt_body_def Let_def
    by (auto dest!: then_do_Return
          dest: check_response_Return validate_response_Return check_html_Return
                check_size_Return prepare_path_Return check_header_Return transfer_Return)
next
  case (ConnectionError m)
  with assms show ?thesis by (simp add: attempt_body_def Let_def)
next
  case (Timeout m)
  with assms show ?thesis by (simp add: attempt_body_def Let_def)
next
  case (OtherException m)
  with assms show ?thesis
    by (auto simp: attempt_body_def Let_def exit_post_def warned_def cause_logged_def warning_def emit_def)
qed

lemma finish_Returned:
  "finish C K s = (Returned x, s') \<Longrightarrow> x = Completed \<and> \<not> downloading s' \<and> tempfile s' = tempfile s \<and> trace s' = trace s"
  by (auto simp: finish_def Let_def split: if_splits option.splits)

lemma download_loop_Returned:
  "download_loop C K X s script = Some (Returned x, s') \<Longrightarrow>
     (x = Completed \<and> \<not> downloading s') \<or> exit_post C x s'"
proof (induction script arbitrary: s)
  case Nil
  then show ?case
    by (auto split: step.splits dest: retry_check_Return_post)
next
  case (Cons a script)
  let ?m = "then_do (retry_check C s) (\<lambda>s. attempt_body C K X a (retry_sleep C a s))"
  show ?case
  proof (cases ?m)
    case (Next s1)
    with Cons show ?thesis by simp
  next
    case (Continue s1)
    with Cons show ?thesis by simp
  next
    case (Break s1)
    with Cons.prems show ?thesis by (auto dest: finish_Returned)
  next
    case (Return y s1)
    with Cons.prems have xy: "y = x" "s1 = s'" by auto
    from Return have "retry_check C s = Return y s1 \<or>
        (\<exists>s0. attempt_body C K X a s0 = Return y s1)"
      by (auto dest!: then_do_Return)
    then show ?thesis using xy by (auto dest: retry_check_Return_post attempt_body_Return)
  next
    case (Raise e s1)
    with Cons.prems show ?thesis by simp
  qed
qed


subsection \<open>Accepted responses\<close>

lemma then_do_simps:
  "then_do (Next s) f = f s" "then_do (Continue s) f = Continue s" "then_do (Break s) f = Break s"
  "then_do (Return x s) f = Return x s" "then_do (Raise e s) f = Raise e s"
  by (simp_all add: then_do_def)

lemma attempt_body_Responded:
  "request_result a = Responded r \<Longrightarrow>
   attempt_body C K X a s =
     then_do (check_response C K X r ((send_request C K s)\<lparr>resp := Some r\<rparr>)) (\<lambda>s.
     then_do (validate_response C K r s) (\<lambda>s.
     then_do (check_html C r s) (\<lambda>s.
     then_do (check_size C X s) (\<lambda>s.
     then_do (prepare_path C X a r s) (\<lambda>s.
     then_do (check_header C K a s) (\<lambda>s.
     transfer C K X a s))))))"
  by (simp add: attempt_body_def Let_def)


lemma check_response_ok:
  "status_code r = 200 \<or> status_code r \<in> set (http_expected_status K) \<Longrightarrow>
   check_response C K X r s =
     Next (s\<lparr>code := status_code r, offset := 0, size_raw := map_of (headers r) ''content-length''\<rparr>)"
  by (auto simp: check_response_def Let_def)

lemma check_response_partial:
  "\<not> (status_code r = 200 \<or> status_code r \<in> set (http_expected_status K)) \<Longrightarrow> status_code r = 206 \<Longrightarrow>
   map_of (headers r) ''content-range'' = Some v \<Longrightarrow>
   check_response C K X r s =
     Next (s\<lparr>code := status_code r, offset := file_size s, size_raw := Some (rpartition_tail CHR ''/'' v)\<rparr>)"
  by (auto simp: check_response_def Let_def)
lemma check_response_accepted:
  assumes "accepted_status K r"
  shows "\<exists>off raw. check_response C K X r s = Next (s\<lparr>code := status_code r, offset := off, size_raw := raw\<rparr>) \<and>
           parse_int X raw = declared_size K X r"
proof (cases "status_code r = 200 \<or> status_code r \<in> set (http_expected_status K)")
  case True
  then show ?thesis using check_response_ok [OF True] by (auto simp: declared_size_def)
next
  case False
  with assms obtain v where "status_code r = 206" "map_of (headers r) ''content-range'' = Some v"
    by (auto simp: accepted_status_def)
  with False show ?thesis using check_response_partial [OF False, of v C X s]
    by (auto simp: declared_size_def)
qed


lemma validation_passes:
  "passes_validation C K (extension s) r \<Longrightarrow>
     validate_response C K r s = Next s \<and> check_html C r s = Next s"
  by (auto simp: passes_validation_def validate_response_def check_html_def
        split: option.splits if_splits vresult.splits)

lemma check_size_inside:
  "\<not> outside_limits C (parse_int X (size_raw s)) \<Longrightarrow>
     check_size C X s = Next (s\<lparr>size_int := parse_int X (size_raw s)\<rparr>)"
  by (auto simp: outside_limits_def check_size_def Let_def split: option.splits)

lemma send_request_fields:
  "tempfile (send_request C K s) = tempfile s" "extension (send_request C K s) = extension s"
  "tries (send_request C K s) = tries s + 1" "url (send_request C K s) = url s"
  "file_size (send_request C K s) = part_size s"
  "temppath (send_request C K s) = temppath s" "downloading (send_request C K s) = downloading s"
  "trace (send_request C K s) = trace s @ [Request (case http_method K of None \<Rightarrow> ''GET'' | Some m \<Rightarrow> m) (url s)
                 (request_headers C K (part_size s)) (http_data K)]"
  by (simp_all add: send_request_def Let_def emit_def part_size_def)


lemma check_size_outside:
  assumes "outside_limits C (parse_int X (size_raw s))"
  shows "\<exists>x l. check_size C X s =
            Return x ((s\<lparr>size_int := parse_int X (size_raw s), trace := trace s @ [ReleaseConn, Log Warning l],
                         temppath := []\<rparr>)) \<and>
          outcome_of x = Skipped \<and> cause_logged x l"
proof (cases "parse_int X (size_raw s)")
  case None
  with assms show ?thesis by (simp add: outside_limits_def)
next
  case (Some sz)
  show ?thesis
  proof (cases "below_min C sz")
    case (Some m)
    have "check_size C X s = Return TooSmall ((s\<lparr>size_int := parse_int X (size_raw s),
               trace := trace s @ [ReleaseConn, Log Warning (LTooSmall sz m)], temppath := []\<rparr>))"
      using Some \<open>parse_int X (size_raw s) = Some sz\<close>
      by (simp add: check_size_def Let_def warning_def release_conn_def emit_def)
    moreover have "outcome_of TooSmall = Skipped" "cause_logged TooSmall (LTooSmall sz m)"
      by (simp_all add: outcome_of_def cause_logged_def)
    ultimately show ?thesis by blast
  next
    case None
    with assms \<open>parse_int X (size_raw s) = Some sz\<close> obtain m where m: "above_max C sz = Some m"
      by (auto simp: outside_limits_def)
    have "check_size C X s = Return TooLarge ((s\<lparr>size_int := parse_int X (size_raw s),
               trace := trace s @ [ReleaseConn, Log Warning (LTooLarge sz m)], temppath := []\<rparr>))"
      using None m \<open>parse_int X (size_raw s) = Some sz\<close>
      by (simp add: check_size_def Let_def warning_def release_conn_def emit_def)
    moreover have "outcome_of TooLarge = Skipped" "cause_logged TooLarge (LTooLarge sz m)"
      by (simp_all add: outcome_of_def cause_logged_def)
    ultimately show ?thesis by blast
  qed
qed

lemma attempt_skip:
  assumes "request_result a = Responded r" "accepted_status K r"
    "passes_validation C K (extension s) r" "outside_limits C (declared_size K X r)"
  shows "\<exists>x l s'. attempt_body C K X a s = Return x s' \<and> outcome_of x = Skipped \<and> cause_logged x l \<and>
           temppath s' = [] \<and> tempfile s' = tempfile s \<and>
           trace s' = trace (send_request C K s) @ [ReleaseConn, Log Warning l]"
proof -
  let ?s0 = "(send_request C K s)\<lparr>resp := Some r\<rparr>"
  from check_response_accepted [OF assms(2), of C X ?s0] obtain off raw where
    1: "check_response C K X r ?s0 = Next (?s0\<lparr>code := status_code r, offset := off, size_raw := raw\<rparr>)"
       "parse_int X raw = declared_size K X r" by blast
  let ?s1 = "?s0\<lparr>code := status_code r, offset := off, size_raw := raw\<rparr>"
  have e: "extension ?s1 = extension s" by (simp add: send_request_fields)
  from validation_passes [of C K ?s1 r] assms(3) e
  have 2: "validate_response C K r ?s1 = Next ?s1" "check_html C r ?s1 = Next ?s1" by auto
  have "outside_limits C (parse_int X (size_raw ?s1))" using 1 assms(4) by simp
  from check_size_outside [OF this] obtain x l where
    3: "check_size C X ?s1 = Return x (?s1\<lparr>size_int := parse_int X (size_raw ?s1),
          trace := trace ?s1 @ [ReleaseConn, Log Warning l], temppath := []\<rparr>)"
       "outcome_of x = Skipped" "cause_logged x l" by blast
  have "attempt_body C K X a s = Return x (?s1\<lparr>size_int := parse_int X (size_raw ?s1),
          trace := trace ?s1 @ [ReleaseConn, Log Warning l], temppath := []\<rparr>)"
    by (simp only: attempt_body_Responded [OF assms(1)] 1 2 3 then_do_simps)
  then show ?thesis using 3(2,3) by (simp add: send_request_fields)
qed


subsection \<open>Exits by kind, and the loop head\<close>

lemma check_response_kind:
  "check_response C K X r s = Return x s' \<Longrightarrow> x = BadStatus"
  by (auto simp: check_response_def Let_def split: if_splits option.splits)

lemma check_response_Next:
  "check_response C K X r s = Next s1 \<Longrightarrow>
     accepted_status K r \<and> parse_int X (size_raw s1) = declared_size K X r"
  by (auto simp: check_response_def Let_def accepted_status_def declared_size_def
        split: if_splits option.splits)

lemma validate_response_kind:
  "validate_response C K r s = Return x s' \<Longrightarrow> x = InvalidResponse"
  "validate_response C K r s = Next s1 \<Longrightarrow> s1 = s"
  by (auto simp: validate_response_def split: if_splits option.splits vresult.splits)

lemma check_html_kind:
  "check_html C r s = Return x s' \<Longrightarrow> x = HtmlResponse"
  "check_html C r s = Next s1 \<Longrightarrow> s1 = s"
  by (auto simp: check_html_def split: if_splits)

lemma check_size_kind:
  "check_size C X s = Return x s' \<Longrightarrow> outside_limits C (parse_int X (size_raw s))"
  by (auto simp: check_size_def Let_def outside_limits_def split: option.splits)

lemma prepare_path_kind:
  "prepare_path C X a r s = Return x s' \<Longrightarrow> x = ExistsAfterBuild"
  by (auto simp: prepare_path_def Let_def split: if_splits prod.splits)

lemma adjust_probe_kind:
  "adjust_probe v a h s = Return x s' \<Longrightarrow> x = ExistsAfterAdjust"
  by (auto simp: adjust_probe_def split: if_splits sum.splits prod.splits)

lemma check_header_kind:
  "check_header C K a s = Return x s' \<Longrightarrow> x = BadSignature \<or> x = ExistsAfterAdjust"
  by (auto simp: check_header_def Let_def dest: adjust_probe_kind
        split: if_splits option.splits probe_result.splits sigresult.splits)

lemma after_receive_kind:
  "after_receive a s = Return x s' \<Longrightarrow> x = Stopped"
  by (auto simp: after_receive_def split: stream_end.splits option.splits if_splits)

lemma receive_raised_kind:
  "receive_raised e s = Return x s' \<Longrightarrow> x = Stopped"
  by (auto simp: receive_raised_def split: if_splits)

lemma transfer_kind:
  "transfer C K X a s = Return x s' \<Longrightarrow> x = Stopped"
  by (auto simp: transfer_def Let_def write_head_def then_do_def
        dest: after_receive_kind receive_raised_kind
        split: if_splits option.splits prod.splits step.splits list.splits sum.splits)

lemma attempt_skip_only:
  assumes "attempt_body C K X a s = Return x s'" and "outcome_of x = Skipped"
  shows "\<exists>r. request_result a = Responded r \<and> accepted_status K r \<and>
             outside_limits C (declared_size K X r)"
proof (cases "request_result a")
  case (Responded r)
  have nk: "x \<noteq> BadStatus" "x \<noteq> InvalidResponse" "x \<noteq> HtmlResponse" "x \<noteq> ExistsAfterBuild"
    "x \<noteq> BadSignature" "x \<noteq> ExistsAfterAdjust" "x \<noteq> Stopped"
    using assms(2) by (auto simp: outcome_of_def)
  from assms(1) have b: "then_do (check_response C K X r ((send_request C K s)\<lparr>resp := Some r\<rparr>)) (\<lambda>s.
     then_do (validate_response C K r s) (\<lambda>s.
     then_do (check_html C r s) (\<lambda>s.
     then_do (check_size C X s) (\<lambda>s.
     then_do (prepare_path C X a r s) (\<lambda>s.
     then_do (check_header C K a s) (\<lambda>s.
     transfer C K X a s)))))) = Return x s'"
    by (simp add: attempt_body_Responded [OF Responded])
  from then_do_Return [OF b] nk check_response_kind obtain s1 where
    1: "check_response C K X r ((send_request C K s)\<lparr>resp := Some r\<rparr>) = Next s1"
    and b1: "then_do (validate_response C K r s1) (\<lambda>s.
     then_do (check_html C r s) (\<lambda>s.
     then_do (check_size C X s) (\<lambda>s.
     then_do (prepare_path C X a r s) (\<lambda>s.
     then_do (check_header C K a s) (\<lambda>s.
     transfer C K X a s))))) = Return x s'" by blast
  from then_do_Return [OF b1] nk validate_response_kind have
    b2: "then_do (check_html C r s1) (\<lambda>s.
     then_do (check_size C X s) (\<lambda>s.
     then_do (prepare_path C X a r s) (\<lambda>s.
     then_do (check_header C K a s) (\<lambda>s.
     transfer C K X a s)))) = Return x s'" by blast
  from then_do_Return [OF b2] nk check_html_kind have
    b3: "then_do (check_size C X s1) (\<lambda>s.
     then_do (prepare_path C X a r s) (\<lambda>s.
     then_do (check_header C K a s) (\<lambda>s.
     transfer C K X a s))) = Return x s'" by blast
  have "check_size C X s1 = Return x s'"
  proof (rule ccontr)
    assume n: "check_size C X s1 \<noteq> Return x s'"
    with then_do_Return [OF b3] obtain s4 where
      b4: "then_do (prepare_path C X a r s4) (\<lambda>s.
             then_do (check_header C K a s) (\<lambda>s. transfer C K X a s)) = Return x s'" by blast
    from then_do_Return [OF b4] nk prepare_path_kind obtain s5 where
      b5: "then_do (check_header C K a s5) (\<lambda>s. transfer C K X a s) = Return x s'" by blast
    from then_do_Return [OF b5] nk check_header_kind obtain s6 where
      "transfer C K X a s6 = Return x s'" by blast
    with nk transfer_kind show False by blast
  qed
  then have "outside_limits C (parse_int X (size_raw s1))" by (rule check_size_kind)
  with check_response_Next [OF 1] Responded show ?thesis by simp
next
  case (ConnectionError m)
  with assms show ?thesis by (simp add: attempt_body_def Let_def)
next
  case (Timeout m)
  with assms show ?thesis by (simp add: attempt_body_def Let_def)
next
  case (OtherException m)
  with assms show ?thesis by (auto simp: attempt_body_def Let_def outcome_of_def)
qed

lemma retry_check_kind:
  "retry_check C s = Return x s' \<Longrightarrow> x = RetriesExhausted"
  by (auto simp: retry_check_def Let_def split: if_splits)

lemma loop_skip_only:
  "download_loop C K X s script = Some (Returned x, s') \<Longrightarrow> outcome_of x = Skipped \<Longrightarrow>
     \<exists>a\<in>set script. \<exists>r. request_result a = Responded r \<and> accepted_status K r \<and>
             outside_limits C (declared_size K X r)"
proof (induction script arbitrary: s)
  case Nil
  then show ?case
    by (auto split: step.splits dest!: retry_check_kind simp: outcome_of_def)
next
  case (Cons a script)
  let ?m = "then_do (retry_check C s) (\<lambda>s. attempt_body C K X a (retry_sleep C a s))"
  show ?case
  proof (cases ?m)
    case (Next s1)
    with Cons show ?thesis by auto
  next
    case (Continue s1)
    with Cons show ?thesis by auto
  next
    case (Break s1)
    with Cons.prems show ?thesis by (auto dest: finish_Returned simp: outcome_of_def)
  next
    case (Return y s1)
    with Cons.prems have xy: "y = x" "s1 = s'" by auto
    from Return have "retry_check C s = Return y s1 \<or>
        (\<exists>s0. attempt_body C K X a s0 = Return y s1)"
      by (auto dest!: then_do_Return)
    then show ?thesis using xy Cons.prems(2)
      by (auto dest!: retry_check_kind attempt_skip_only simp: outcome_of_def)
  next
    case (Raise e s1)
    with Cons.prems show ?thesis by simp
  qed
qed

lemma head_frame:
  assumes "retry_check C s = Next s1"
  shows "extension (retry_sleep C a s1) = extension s \<and> tempfile (retry_sleep C a s1) = tempfile s \<and>
         temppath (retry_sleep C a s1) = temppath s \<and> url (retry_sleep C a s1) = url s \<and>
         downloading (retry_sleep C a s1) = downloading s \<and>
         (\<exists>es. trace (retry_sleep C a s1) = trace s @ es \<and> opened es = [] \<and> written es = [])"
  using assms
  by (auto simp: retry_check_def retry_sleep_def Let_def warning_def release_conn_def emit_def
        split: if_splits)

lemma send_request_trace:
  "\<exists>e. trace (send_request C K s) = trace s @ [e] \<and> opened [e] = [] \<and> written [e] = []"
  by (simp add: send_request_fields)

lemma opened_append: "opened (xs @ ys) = opened xs @ opened ys"
  by (induction xs rule: opened.induct) auto

lemma written_append: "written (xs @ ys) = written xs @ written ys"
  by (induction xs rule: written.induct) auto

subsection \<open>The status 416\<close>

lemma map_of_dict_set: "map_of (dict_set k v d) k = Some v"
  by (induction d) auto

lemma range_header:
  "n \<noteq> 0 \<Longrightarrow> map_of (request_headers C K n) ''Range'' = Some (''bytes='' @ str_nat n @ ''-'')"
  by (simp add: request_headers_def Let_def map_of_dict_set)

lemma attempt_416_complete:
  assumes "request_result a = Responded r" "status_code r = 416" "416 \<notin> set (http_expected_status K)"
    "part_size t \<noteq> 0"
  shows "attempt_body C K X a t = Break ((send_request C K t)\<lparr>resp := Some r, code := 416\<rparr>)"
proof -
  have "check_response C K X r ((send_request C K t)\<lparr>resp := Some r\<rparr>) =
          Break ((send_request C K t)\<lparr>resp := Some r, code := 416\<rparr>)"
    using assms by (simp add: check_response_def Let_def send_request_fields)
  then show ?thesis by (simp add: attempt_body_Responded [OF assms(1)] then_do_simps)
qed

lemma attempt_416_ordinary:
  assumes "request_result a = Responded r" "status_code r = 416" "416 \<notin> set (http_expected_status K)"
    "part_size t = 0"
  shows "\<exists>t'. msg t' = MsgStatus 416 (reason r) (url t) \<and>
           attempt_body C K X a t =
             (if retry_wanted C K r then Continue t'
              else Return BadStatus (warning (LMsg (MsgStatus 416 (reason r) (url t))) (release_conn t')))"
proof -
  let ?s0 = "(send_request C K t)\<lparr>resp := Some r\<rparr>"
  let ?s1 = "?s0\<lparr>code := 416, msg := MsgStatus 416 (reason r) (url t)\<rparr>"
  let ?t' = "case detect_challenge X r of None \<Rightarrow> ?s1 | Some c \<Rightarrow> warning (LChallenge c) ?s1"
  have m: "msg ?t' = MsgStatus 416 (reason r) (url t)"
    by (simp add: warning_def emit_def split: option.splits)
  have "check_response C K X r ?s0 =
          (if retry_wanted C K r then Continue ?t'
           else Return BadStatus (warning (LMsg (MsgStatus 416 (reason r) (url t))) (release_conn ?t')))"
    using assms m
    by (simp add: check_response_def Let_def send_request_fields retry_wanted_def
          warning_def emit_def release_conn_def split: option.splits)
  then have "attempt_body C K X a t =
          (if retry_wanted C K r then Continue ?t'
           else Return BadStatus (warning (LMsg (MsgStatus 416 (reason r) (url t))) (release_conn ?t')))"
    by (simp add: attempt_body_Responded [OF assms(1)] then_do_simps)
  with m show ?thesis by blast
qed


lemma finish_Completed:
  "resp s = Some r \<Longrightarrow>
     \<exists>s'. finish C K s = (Returned Completed, s') \<and> tempfile s' = tempfile s \<and> trace s' = trace s \<and>
          \<not> downloading s'"
  by (auto simp: finish_def Let_def split: option.splits)

subsection \<open>The validator\<close>

lemma kwdict_validate_fields:
  "http_expected_status (K\<lparr>http_validate := w\<rparr>) = http_expected_status K"
  "http_retry (K\<lparr>http_validate := w\<rparr>) = http_retry K"
  "http_signature (K\<lparr>http_validate := w\<rparr>) = http_signature K"
  "adjust_enabled C (K\<lparr>http_validate := w\<rparr>) = adjust_enabled C K"
  by (simp_all add: adjust_enabled_def)

lemma check_response_K:
  "check_response C (K\<lparr>http_validate := w\<rparr>) X r s = check_response C K X r s"
  unfolding check_response_def kwdict_validate_fields by (rule refl)

lemma check_header_K:
  "check_header C (K\<lparr>http_validate := w\<rparr>) a s = check_header C K a s"
  unfolding check_header_def kwdict_validate_fields by (rule refl)

lemma write_head_K:
  "write_head C (K\<lparr>http_validate := w\<rparr>) s = write_head C K s"
  unfolding write_head_def kwdict_validate_fields by (rule refl)

lemma transfer_K:
  "transfer C (K\<lparr>http_validate := w\<rparr>) X a s = transfer C K X a s"
  unfolding transfer_def write_head_K by (rule refl)

lemma validate_response_none:
  "validate_response C (K\<lparr>http_validate := None\<rparr>) r s = Next s"
  by (simp add: validate_response_def)

lemma attempt_validator:
  assumes "request_result a = Responded r" "accepted_status K r" "validate C" "http_validate K = Some v"
  shows "\<exists>s1. check_response C K X r ((send_request C K t)\<lparr>resp := Some r\<rparr>) = Next s1 \<and>
           tries s1 = tries t + 1 \<and> trace s1 = trace (send_request C K t) \<and> msg s1 = msg t \<and>
           code s1 = status_code r \<and>
           attempt_body C K X a t =
             (case v r of
                VRaise \<Rightarrow> Raise ValidatorError (release_conn s1)
              | VStr u \<Rightarrow> Continue (s1\<lparr>url := u, tries := tries s1 - 1\<rparr>)
              | VFalsy \<Rightarrow> Return InvalidResponse (warning LInvalidResponse (release_conn s1))
              | VTruthy \<Rightarrow> attempt_body C (K\<lparr>http_validate := None\<rparr>) X a t)"
proof -
  let ?s0 = "(send_request C K t)\<lparr>resp := Some r\<rparr>"
  from check_response_accepted [OF assms(2), of C X ?s0] obtain off raw where
    1: "check_response C K X r ?s0 = Next (?s0\<lparr>code := status_code r, offset := off, size_raw := raw\<rparr>)"
    by blast
  let ?s1 = "?s0\<lparr>code := status_code r, offset := off, size_raw := raw\<rparr>"
  have f: "tries ?s1 = tries t + 1" "trace ?s1 = trace (send_request C K t)" "msg ?s1 = msg t"
    "code ?s1 = status_code r"
    by (simp_all add: send_request_fields send_request_def Let_def emit_def)
  have v: "validate_response C K r ?s1 =
             (case v r of
                VRaise \<Rightarrow> Raise ValidatorError (release_conn ?s1)
              | VStr u \<Rightarrow> Continue (?s1\<lparr>url := u, tries := tries ?s1 - 1\<rparr>)
              | VFalsy \<Rightarrow> Return InvalidResponse (warning LInvalidResponse (release_conn ?s1))
              | VTruthy \<Rightarrow> Next ?s1)"
    using assms(3,4) by (simp add: validate_response_def)
  have K': "request_result a = Responded r" by fact
  have sr: "send_request C (K\<lparr>http_validate := None\<rparr>) t = send_request C K t"
    by (simp add: send_request_def request_headers_def)
  have b': "attempt_body C (K\<lparr>http_validate := None\<rparr>) X a t =
     then_do (check_html C r ?s1) (\<lambda>s.
     then_do (check_size C X s) (\<lambda>s.
     then_do (prepare_path C X a r s) (\<lambda>s.
     then_do (check_header C K a s) (\<lambda>s.
     transfer C K X a s))))"
    by (simp only: attempt_body_Responded [OF K'] sr check_response_K check_header_K transfer_K
          validate_response_none 1 then_do_simps)
  have b: "attempt_body C K X a t =
     then_do (validate_response C K r ?s1) (\<lambda>s.
     then_do (check_html C r s) (\<lambda>s.
     then_do (check_size C X s) (\<lambda>s.
     then_do (prepare_path C X a r s) (\<lambda>s.
     then_do (check_header C K a s) (\<lambda>s.
     transfer C K X a s)))))"
    by (simp only: attempt_body_Responded [OF K'] 1 then_do_simps)
  have "attempt_body C K X a t =
             (case v r of
                VRaise \<Rightarrow> Raise ValidatorError (release_conn ?s1)
              | VStr u \<Rightarrow> Continue (?s1\<lparr>url := u, tries := tries ?s1 - 1\<rparr>)
              | VFalsy \<Rightarrow> Return InvalidResponse (warning LInvalidResponse (release_conn ?s1))
              | VTruthy \<Rightarrow> attempt_body C (K\<lparr>http_validate := None\<rparr>) X a t)"
    unfolding b b' v by (cases "v r") (simp_all add: then_do_simps)
  with 1 f show ?thesis by blast
qed


lemma retry_head_idle:
  "tries s = 0 \<Longrightarrow> retry_check C s = Next s \<and> retry_sleep C a s = s"
  by (simp add: retry_check_def retry_sleep_def)

lemma retry_check_passes:
  "tries s \<noteq> 0 \<Longrightarrow> \<not> exceeded (tries s) (retries C) \<Longrightarrow>
     \<exists>s1 tr. retry_check C s = Next s1 \<and>
        trace s1 = tr @ [Log Warning (LRetry (msg s) (tries s) (retries C))] \<and> tries s1 = tries s \<and>
        code s1 = code s"
  by (auto simp: retry_check_def Let_def warning_def release_conn_def emit_def)

lemma retry_sleep_waits:
  "tries s \<noteq> 0 \<Longrightarrow>
     \<exists>d. trace (retry_sleep C a s) = trace s @ [Sleep d] \<and> of_int (tries s) \<le> d"
  by (auto simp: retry_sleep_def Let_def emit_def)

subsection \<open>The schedule of retries\<close>

lemma retry_sleep_exact:
  "tries s \<noteq> 0 \<Longrightarrow>
     trace (retry_sleep C a s) = trace s @ [Sleep (retry_wait C (code s) (backoff_429 a) (tries s))] \<and>
     tries (retry_sleep C a s) = tries s \<and> tempfile (retry_sleep C a s) = tempfile s"
  by (simp add: retry_sleep_def retry_wait_def Let_def emit_def max_def)

lemma retryable_status_of:
  "retryable_attempt C K n a \<Longrightarrow> \<exists>r. request_result a = Responded r \<and> status_of a = status_code r"
  by (auto simp: retryable_attempt_def status_of_def split: conn_result.splits)

lemma loop_retry_schedule:
  assumes "retries C = Some r"
  shows "\<forall>a \<in> set script. retryable_attempt C K (part_size s) a \<Longrightarrow>
     tries s = int k \<Longrightarrow> k \<noteq> 0 \<Longrightarrow> r < length script + k \<Longrightarrow>
     \<exists>s'. download_loop C K X s script = Some (Returned RetriesExhausted, s') \<and>
          marks (trace s') = marks (trace s) @ backoff_schedule C r k (code s) script"
proof (induction script arbitrary: s k)
  case Nil
  then have k: "tries s \<noteq> 0" "exceeded (tries s) (retries C)" using assms by (auto simp: exceeded_def)
  then obtain s' where "retry_check C s = Return RetriesExhausted s'"
    using retry_check_Return [of s C] by auto
  then show ?case using retry_check_marks(2) [of C s RetriesExhausted s'] by auto
next
  case (Cons a script)
  show ?case
  proof (cases "r < k")
    case True
    then have k: "tries s \<noteq> 0" "exceeded (tries s) (retries C)"
      using assms Cons.prems by (auto simp: exceeded_def)
    then obtain s' where "retry_check C s = Return RetriesExhausted s'"
      using retry_check_Return [of s C] by auto
    with True show ?thesis using retry_check_marks(2) [of C s RetriesExhausted s']
      by (auto simp: then_do_def)
  next
    case False
    then have "tries s = 0 \<or> \<not> exceeded (tries s) (retries C)"
      using assms Cons.prems by (auto simp: exceeded_def)
    then obtain s1 where s1: "retry_check C s = Next s1" using retry_check_Next by blast
    note m1 = retry_check_marks(1) [OF s1]
    let ?s2 = "retry_sleep C a s1"
    have nz: "tries s1 \<noteq> 0" using m1 Cons.prems by simp
    from retry_sleep_exact [OF nz, of C a] m1 Cons.prems
    have m2: "tries ?s2 = int k" "tempfile ?s2 = tempfile s"
       "marks (trace ?s2) = marks (trace s) @ [Wait (retry_wait C (code s) (backoff_429 a) (int k))]"
      by (simp_all add: marks_append)
    have ps: "part_size ?s2 = part_size s" using m2 by (simp add: part_size_def)
    have ra: "retryable_attempt C K (part_size ?s2) a" using Cons.prems ps by auto
    from attempt_retryable [OF ra, of X] obtain s3 rr where s3:
      "attempt_body C K X a ?s2 = Continue s3" "request_result a = Responded rr"
      "tries s3 = tries ?s2 + 1" "code s3 = status_code rr" "tempfile s3 = tempfile ?s2"
      "marks (trace s3) = marks (trace ?s2) @ [Attempt]"
      by blast
    have step: "download_loop C K X s (a # script) = download_loop C K X s3 script"
      using s1 s3 by (simp add: then_do_def)
    have t3: "tries s3 = int (Suc k)" using s3 m2 by simp
    have c3: "code s3 = status_of a" using s3 by (simp add: status_of_def)
    have ps3: "part_size s3 = part_size s" using s3 m2 by (simp add: part_size_def)
    from Cons.IH [of s3 "Suc k"] Cons.prems t3 ps3
    obtain s' where s': "download_loop C K X s3 script = Some (Returned RetriesExhausted, s')"
      "marks (trace s') = marks (trace s3) @ backoff_schedule C r (Suc k) (code s3) script"
      by auto
    from s' s3(6) m2(3) step c3 False show ?thesis by simp
  qed
qed

lemma loop_retry_first:
  assumes "retries C = Some r"
    and "\<forall>a \<in> set script. retryable_attempt C K (part_size s) a"
    and "tries s = 0" and "r < length script"
  shows "\<exists>s'. download_loop C K X s script = Some (Returned RetriesExhausted, s') \<and>
          marks (trace s') = marks (trace s) @ retry_schedule C r script"
proof (cases script)
  case Nil
  with assms show ?thesis by simp
next
  case (Cons a rest)
  from retry_head_idle [OF assms(3), of C a] have h: "retry_check C s = Next s" "retry_sleep C a s = s"
    by simp_all
  have ra: "retryable_attempt C K (part_size s) a" using assms(2) Cons by simp
  from attempt_retryable [OF ra, of X] obtain s3 rr where s3:
      "attempt_body C K X a s = Continue s3" "request_result a = Responded rr"
      "tries s3 = tries s + 1" "code s3 = status_code rr" "tempfile s3 = tempfile s"
      "marks (trace s3) = marks (trace s) @ [Attempt]"
      by blast
  have step: "download_loop C K X s script = download_loop C K X s3 rest"
    using h s3 Cons by (simp add: then_do_def)
  have t3: "tries s3 = int 1" using s3 assms(3) by simp
  have c3: "code s3 = status_of a" using s3 by (simp add: status_of_def)
  have ps3: "part_size s3 = part_size s" using s3 by (simp add: part_size_def)
  have all: "\<forall>a \<in> set rest. retryable_attempt C K (part_size s3) a" using assms(2) Cons ps3 by simp
  have len: "r < length rest + 1" using assms(4) Cons by simp
  from loop_retry_schedule [OF assms(1) all t3 _ len, of X]
  obtain s' where s': "download_loop C K X s3 rest = Some (Returned RetriesExhausted, s')"
      "marks (trace s') = marks (trace s3) @ backoff_schedule C r 1 (code s3) rest"
    by auto
  from s' s3(6) step c3 Cons show ?thesis by (simp add: retry_schedule_def)
qed

lemma backoff_schedule_attempts:
  "r < length script + n \<Longrightarrow> n \<noteq> 0 \<Longrightarrow>
     length (filter (\<lambda>m. m = Attempt) (backoff_schedule C r n c script)) = Suc r - n"
proof (induction script arbitrary: n c)
  case Nil
  then show ?case by simp
next
  case (Cons a script)
  show ?case
  proof (cases "r < n")
    case True
    then show ?thesis by simp
  next
    case False
    with Cons.prems have "r < length script + Suc n" by simp
    from Cons.IH [OF this, of "status_of a"] False show ?thesis by simp
  qed
qed

lemma backoff_schedule_linear:
  "\<forall>a \<in> set script. linear_backoff C a \<and> (\<exists>r. request_result a = Responded r) \<Longrightarrow>
   c \<noteq> 429 \<or> \<not> interval_429 C \<Longrightarrow> r < length script + n \<Longrightarrow> n \<noteq> 0 \<Longrightarrow>
     backoff_schedule C r n c script = concat (map (\<lambda>m. [Wait (of_nat m), Attempt]) [n..<Suc r])"
proof (induction script arbitrary: n c)
  case Nil
  then show ?case by simp
next
  case (Cons a script)
  show ?case
  proof (cases "r < n")
    case True
    then show ?thesis by simp
  next
    case False
    have w: "retry_wait C c (backoff_429 a) (int n) = of_nat n"
      using Cons.prems(2) by (auto simp: retry_wait_def)
    from Cons.prems(1) obtain rr where rr: "request_result a = Responded rr"
      "\<not> (status_code rr = 429 \<and> interval_429 C)"
      by (auto simp: linear_backoff_def)
    then have c': "status_of a \<noteq> 429 \<or> \<not> interval_429 C" by (auto simp: status_of_def)
    have len: "r < length script + Suc n" using Cons.prems(3) by simp
    have all: "\<forall>a \<in> set script. linear_backoff C a \<and> (\<exists>r. request_result a = Responded r)"
      using Cons.prems(1) by simp
    have up: "[n..<Suc r] = n # [Suc n..<Suc r]" using False by (simp add: upt_rec [of n])
    from Cons.IH [OF all c' len] False w up show ?thesis by simp
  qed
qed

subsection \<open>Parts of the loop body that leave the file alone\<close>

lemma debugs_append: "debugs (xs @ ys) = debugs xs @ debugs ys"
  by (induction xs rule: debugs.induct) auto


lemma step_state_then_do:
  "step_state (then_do m f) = (case m of Next s1 \<Rightarrow> step_state (f s1) | _ \<Rightarrow> step_state m)"
  by (cases m) (simp_all add: then_do_simps)













subsection \<open>What the receivers write\<close>

lemma body_simps:
  "body [] = []" "body ((t, d, None) # rest) = d @ body rest" "body ((t, d, Some g) # rest) = d"
  by (simp_all add: body_def)


lemma progress_step_ok:
  assumes "\<forall>p. prog = Some p \<longrightarrow> 0 \<le> p"
  shows "progress_step X prog bt bs n t = Inr (progress_report X prog bt bs t n)"
  using assms by (cases prog) (auto simp: progress_step_def progress_report_def)

lemma progress_report_quiet:
  "opened (progress_report X prog bt bs t n) = [] \<and> debugs (progress_report X prog bt bs t n) = [] \<and>
   written (progress_report X prog bt bs t n) = [] \<and>
   filter is_write_or_progress (progress_report X prog bt bs t n) = progress_report X prog bt bs t n"
  by (cases prog) (simp_all add: progress_report_def)

lemma rate_step_ok:
  assumes "rt \<noteq> Some 0"
  shows "\<exists>ev. rate_step X rt n t = Inr ev \<and> opened ev = [] \<and> debugs ev = [] \<and> written ev = [] \<and>
           filter is_write_or_progress ev = []"
  using assms by (cases rt) (auto simp: rate_step_def Let_def)

lemma receive_rate_run:
  assumes "rt \<noteq> Some 0" and "\<forall>p. prog = Some p \<longrightarrow> 0 \<le> p"
  shows "snd (receive_rate X rt prog bt bs bd cs) = map_option flag_exn (first_flag cs) \<and>
         written (fst (receive_rate X rt prog bt bs bd cs)) = body cs \<and>
         opened (fst (receive_rate X rt prog bt bs bd cs)) = [] \<and>
         debugs (fst (receive_rate X rt prog bt bs bd cs)) = [] \<and>
         filter is_write_or_progress (fst (receive_rate X rt prog bt bs bd cs)) =
           concat (map (\<lambda>(t, d, f, n).
                     Write d # (if f = None then progress_report X prog bt bs t n else []))
                   (running bd (upto_flag cs)))"
proof (induction cs arbitrary: bd)
  case Nil
  show ?case by (simp add: body_simps)
next
  case (Cons c cs)
  obtain t d f where c: "c = (t, d, f)" by (cases c)
  show ?case
  proof (cases f)
    case (Some g)
    with c show ?thesis by (simp add: body_simps)
  next
    case None
    obtain evs r where rec: "receive_rate X rt prog bt bs (bd + length d) cs = (evs, r)"
      by (cases "receive_rate X rt prog bt bs (bd + length d) cs")
    from Cons.IH [of "bd + length d"] rec
    have ih: "r = map_option flag_exn (first_flag cs)" "written evs = body cs"
         "opened evs = []" "debugs evs = []"
         "filter is_write_or_progress evs =
            concat (map (\<lambda>(t, d, f, n).
                     Write d # (if f = None then progress_report X prog bt bs t n else []))
                   (running (bd + length d) (upto_flag cs)))"
      by simp_all
    note p2 = progress_step_ok [OF assms(2), of X bt bs "bd + length d" t]
    note q2 = progress_report_quiet [of X prog bt bs t "bd + length d"]
    from rate_step_ok [OF assms(1), of X "bd + length d" t] obtain ev3 where
      p3: "rate_step X rt (bd + length d) t = Inr ev3" "opened ev3 = []" "debugs ev3 = []"
          "written ev3 = []" "filter is_write_or_progress ev3 = []" by blast
    show ?thesis
      by (simp add: c None rec ih p2 q2 p3 Let_def body_simps opened_append debugs_append
            written_append)
  qed
qed







subsection \<open>Writing a file from offset zero\<close>






section \<open>Evaluating concrete runs\<close>

lemmas run_defs =
  download_def download_impl_def finish_def attempt_body_def retry_check_def retry_sleep_def
  send_request_def request_headers_def check_response_def validate_response_def check_html_def
  check_size_def below_min_def above_max_def prepare_path_def check_header_def adjust_probe_def
  adjust_enabled_def in_signature_checks_def transfer_def write_head_def run_receive_def
  use_rate_def after_receive_def receive_raised_def flag_exn_def apply_events_def apply_event_def fp_write_def
  progress_step_def rate_step_def remove_file_def startswith_def
  then_do_def exceeded_def truthy_response_def truthy_str_def part_size_def part_enable_def
  set_extension_def build_path_def emit_def warning_def debug_def release_conn_def
  basic_config_def plain_kwdict_def no_externals_def decimal_externals_def answer_def
  responding_def initial_state_def SIGNATURE_CHECKS_def Let_def

section \<open>The retry budget\<close>

text \<open>
  C1, as amended.  For a retry limit \<open>r\<close> and a server that answers every
  attempt with a retryable status, the loop makes exactly \<open>r + 1\<close> request
  attempts and returns through the exhausted-retries exit, which is a failure.
  The first attempt follows no sleep; attempt \<open>n + 1\<close> follows one sleep, of
  \<open>n\<close> seconds, or of the larger of \<open>n\<close> and the value of the 429 backoff
  function when the status before it was 429 and such a function is configured.
  When no attempt is a 429 under a configured backoff, the sleeps are exactly
  1, 2, ..., \<open>r\<close> seconds.  A script of more than \<open>r\<close> attempts is enough for
  the loop to end.
\<close>

theorem retry_budget:
  assumes "retries C = Some r"
    and "\<forall>a \<in> set script. retryable_attempt C K (part_size s0) a"
    and "r < length script"
  shows "\<exists>s'. download_impl C K X s0 script = Some (Returned RetriesExhausted, s') \<and>
           outcome_of RetriesExhausted = Failed \<and>
           marks (trace s') = marks (trace s0) @ retry_schedule C r script \<and>
           length (filter (\<lambda>m. m = Attempt) (retry_schedule C r script)) = Suc r \<and>
           ((\<forall>a \<in> set script. linear_backoff C a) \<longrightarrow>
               retry_schedule C r script = linear_schedule r)"
proof -
  let ?s = "s0\<lparr>resp := None, tries := 0, code := 0, msg := MsgEmpty, meta := metadata C\<rparr>"
  let ?s1 = "if part C \<and> \<not> truthy_str (meta ?s) then part_enable ?s else ?s"
  have ps: "part_size ?s1 = part_size s0" and t: "tries ?s1 = 0"
    and m: "marks (trace ?s1) = marks (trace s0)"
    by (simp_all add: part_size_def part_enable_def emit_def marks_append)
  from assms(2) ps have all: "\<forall>a \<in> set script. retryable_attempt C K (part_size ?s1) a" by simp
  from loop_retry_first [OF assms(1) all t assms(3), of X]
  obtain s' where run: "download_loop C K X ?s1 script = Some (Returned RetriesExhausted, s')"
     "marks (trace s') = marks (trace ?s1) @ retry_schedule C r script"
    by blast
  obtain a rest where sc: "script = a # rest" using assms(3) by (cases script) auto
  have len: "r < length rest + 1" using assms(3) sc by simp
  have cnt: "length (filter (\<lambda>m. m = Attempt) (retry_schedule C r script)) = Suc r"
    using backoff_schedule_attempts [OF len, of C "status_of a"] sc
    by (simp add: retry_schedule_def)
  have lin: "retry_schedule C r script = linear_schedule r"
    if l: "\<forall>a \<in> set script. linear_backoff C a"
  proof -
    have all': "\<forall>b \<in> set rest. linear_backoff C b \<and> (\<exists>r. request_result b = Responded r)"
    proof (intro ballI conjI)
      fix b assume b: "b \<in> set rest"
      show "linear_backoff C b" using l sc b by simp
      from assms(2) sc b have "retryable_attempt C K (part_size s0) b" by simp
      from retryable_status_of [OF this] show "\<exists>r. request_result b = Responded r" by blast
    qed
    from l assms(2) sc obtain rr where "request_result a = Responded rr"
      "\<not> (status_code rr = 429 \<and> interval_429 C)"
      by (auto simp: linear_backoff_def retryable_attempt_def split: conn_result.splits)
    then have c: "status_of a \<noteq> 429 \<or> \<not> interval_429 C" by (auto simp: status_of_def)
    from backoff_schedule_linear [OF all' c len] sc show ?thesis
      by (simp add: retry_schedule_def linear_schedule_def)
  qed
  have dl: "download_impl C K X s0 script = Some (Returned RetriesExhausted, s')"
    using run(1) by (simp add: download_impl_def Let_def)
  have o: "outcome_of RetriesExhausted = Failed" by (simp add: outcome_of_def)
  have mk: "marks (trace s') = marks (trace s0) @ retry_schedule C r script" using run(2) m by simp
  from dl o mk cnt lin show ?thesis by (intro exI [of _ s'] conjI impI)
qed

theorem retry_budget_witness:
  "(\<exists>s'. download_impl (basic_config 2 [] False) plain_kwdict no_externals
           (initial_state ''http://example.org/a'' ''jpg'' ''a.jpg'' None)
           [responding (answer 503 []), responding (answer 503 []), responding (answer 503 [])]
         = Some (Returned RetriesExhausted, s') \<and>
        marks (trace s') = [Attempt, Wait 1, Attempt, Wait 2, Attempt]) \<and>
   (\<exists>s'. download_impl (basic_config 2 [429] True) plain_kwdict no_externals
           (initial_state ''http://example.org/a'' ''jpg'' ''a.jpg'' None)
           [(responding (answer 429 []))\<lparr>backoff_429 := 3 / 2\<rparr>,
            (responding (answer 429 []))\<lparr>backoff_429 := 3 / 2\<rparr>,
            (responding (answer 429 []))\<lparr>backoff_429 := 3 / 2\<rparr>]
         = Some (Returned RetriesExhausted, s') \<and>
        marks (trace s') = [Attempt, Wait (3 / 2), Attempt, Wait 2, Attempt])"
proof -
  let ?s = "initial_state ''http://example.org/a'' ''jpg'' ''a.jpg'' None"
  let ?a = "responding (answer 503 [])"
  let ?b = "(responding (answer 429 []))\<lparr>backoff_429 := 3 / 2\<rparr>"
  have 1: "retries (basic_config 2 [] False) = Some 2" "retries (basic_config 2 [429] True) = Some 2"
    by (simp_all add: basic_config_def)
  have 2: "\<forall>a \<in> set [?a, ?a, ?a]. retryable_attempt (basic_config 2 [] False) plain_kwdict (part_size ?s) a"
    by (simp add: retryable_attempt_def retryable_def responding_def answer_def
          plain_kwdict_def basic_config_def)
  have 3: "\<forall>a \<in> set [?b, ?b, ?b]. retryable_attempt (basic_config 2 [429] True) plain_kwdict (part_size ?s) a"
    by (simp add: retryable_attempt_def retryable_def responding_def answer_def
          plain_kwdict_def basic_config_def)
  have 4: "2 < length [?a, ?a, ?a]" "2 < length [?b, ?b, ?b]" by simp_all
  have 5: "retry_schedule (basic_config 2 [] False) 2 [?a, ?a, ?a] =
             [Attempt, Wait 1, Attempt, Wait 2, Attempt]"
    by (simp add: retry_schedule_def retry_wait_def status_of_def responding_def answer_def
          basic_config_def)
  have 6: "retry_schedule (basic_config 2 [429] True) 2 [?b, ?b, ?b] =
             [Attempt, Wait (3 / 2), Attempt, Wait 2, Attempt]"
    by (simp add: retry_schedule_def retry_wait_def status_of_def responding_def answer_def
          basic_config_def)
  have 7: "marks (trace ?s) = []" by (simp add: initial_state_def)
  from retry_budget [OF 1(1) 2 4(1), of no_externals] retry_budget [OF 1(2) 3 4(2), of no_externals]
  show ?thesis unfolding 5 6 7 by auto
qed

text \<open>
  The claim as stated fails for the retryable status 429 when a 429 backoff is
  configured: with a backoff of 60 seconds the sleeps are 60 and 60, not 1 and 2.
\<close>

theorem retry_budget_counterexample:
  "map_option (\<lambda>(r, s). (r, marks (trace s)))
     (download_impl (basic_config 2 [429] True) plain_kwdict no_externals
        (initial_state ''http://example.org/a'' ''jpg'' ''a.jpg'' None)
        [responding (answer 429 []), responding (answer 429 []), responding (answer 429 [])])
     = Some (Returned RetriesExhausted, [Attempt, Wait 60, Attempt, Wait 60, Attempt]) \<and>
   retryable_attempt (basic_config 2 [429] True) plain_kwdict 0 (responding (answer 429 []))"
  by (simp add: run_defs retryable_attempt_def retryable_def)


section \<open>Warnings before a failure or a skip\<close>




section \<open>Removal of the temp file\<close>




section \<open>The size limits\<close>

text \<open>
  C2, as amended.  For an attempt that the loop head lets through and whose
  response has an accepted status, passes the validator and the HTML check, and
  declares a parseable size under a configured minimum or over a configured
  maximum: the connection is released, one size warning is logged, the temp path
  is cleared and the loop returns through a size exit (a skip, which returns
  \<open>True\<close>, never a failure); nothing is opened, written or removed, so the temp
  file on disk is what it was.  Conversely an invocation is skipped only if one
  of its responses had an accepted status and a declared size outside the limits,
  so responses with sizes inside the limits (or no limits, or no parseable size)
  never give a skip; and a skip always leaves the temp path cleared.
\<close>

theorem size_limit_skip:
  "((tries s = 0 \<or> \<not> exceeded (tries s) (retries C)) \<and> request_result a = Responded r \<and>
      accepted_status K r \<and> passes_validation C K (extension s) r \<and>
      outside_limits C (declared_size K X r) \<longrightarrow>
      (\<exists>x l s' es. download_loop C K X s (a # script) = Some (Returned x, s') \<and>
          outcome_of x = Skipped \<and> cause_logged x l \<and> temppath s' = [] \<and> tempfile s' = tempfile s \<and>
          trace s' = trace s @ es @ [ReleaseConn, Log Warning l] \<and> opened es = [] \<and> written es = [])) \<and>
   (\<forall>x s'. download_impl C K X s0 script0 = Some (Returned x, s') \<and> outcome_of x = Skipped \<longrightarrow>
      temppath s' = [] \<and>
      (\<exists>a\<in>set script0. \<exists>r. request_result a = Responded r \<and> accepted_status K r \<and>
             outside_limits C (declared_size K X r)))"
proof (intro conjI impI allI)
  assume h: "(tries s = 0 \<or> \<not> exceeded (tries s) (retries C)) \<and> request_result a = Responded r \<and>
      accepted_status K r \<and> passes_validation C K (extension s) r \<and>
      outside_limits C (declared_size K X r)"
  then obtain s1 where s1: "retry_check C s = Next s1" using retry_check_Next by blast
  let ?t = "retry_sleep C a s1"
  from head_frame [OF s1, of a] obtain es where
    f: "extension ?t = extension s" "tempfile ?t = tempfile s" "trace ?t = trace s @ es"
       "opened es = []" "written es = []" by blast
  from h f(1) have pv: "passes_validation C K (extension ?t) r" by simp
  from attempt_skip [OF _ _ pv, of a X] h obtain x l s' where
    k: "attempt_body C K X a ?t = Return x s'" "outcome_of x = Skipped" "cause_logged x l"
       "temppath s' = []" "tempfile s' = tempfile ?t"
       "trace s' = trace (send_request C K ?t) @ [ReleaseConn, Log Warning l]" by blast
  from send_request_trace [of C K ?t] obtain e where
    e: "trace (send_request C K ?t) = trace ?t @ [e]" "opened [e] = []" "written [e] = []" by blast
  have dl: "download_loop C K X s (a # script) = Some (Returned x, s')"
    using s1 k(1) by (simp add: then_do_simps)
  have tr: "trace s' = trace s @ (es @ [e]) @ [ReleaseConn, Log Warning l]"
    using k(6) e(1) f(3) by simp
  have oe: "opened (es @ [e]) = []" and we: "written (es @ [e]) = []"
    using f e by (simp_all add: opened_append written_append)
  have tf: "tempfile s' = tempfile s" using k(5) f(2) by simp
  show "\<exists>x l s' es. download_loop C K X s (a # script) = Some (Returned x, s') \<and>
          outcome_of x = Skipped \<and> cause_logged x l \<and> temppath s' = [] \<and> tempfile s' = tempfile s \<and>
          trace s' = trace s @ es @ [ReleaseConn, Log Warning l] \<and> opened es = [] \<and> written es = []"
    using dl k(2) k(3) k(4) tf tr oe we by blast
next
  fix x s'
  assume h: "download_impl C K X s0 script0 = Some (Returned x, s') \<and> outcome_of x = Skipped"
  then have r: "retval x" "x \<noteq> Completed" by (auto simp: outcome_of_def split: if_splits)
  from h show "temppath s' = []"
    using r by (auto simp: download_impl_def Let_def exit_post_def dest!: download_loop_Returned)
next
  fix x s'
  assume h: "download_impl C K X s0 script0 = Some (Returned x, s') \<and> outcome_of x = Skipped"
  then show "\<exists>a\<in>set script0. \<exists>r. request_result a = Responded r \<and> accepted_status K r \<and>
             outside_limits C (declared_size K X r)"
    by (auto simp: download_impl_def Let_def dest!: loop_skip_only)
qed

theorem size_limit_skip_witness:
  "(\<exists>x l s' es. download_loop limited_config plain_kwdict decimal_externals
        (initial_state ''http://example.org/a'' ''jpg'' ''a.jpg'' None)
        [responding (answer 200 [(''content-length'', ''10'')])] = Some (Returned x, s') \<and>
      outcome_of x = Skipped \<and> cause_logged x l \<and> temppath s' = [] \<and>
      tempfile s' = None \<and> trace s' = es @ [ReleaseConn, Log Warning l]) \<and>
   (\<exists>s'. download_impl limited_config plain_kwdict decimal_externals
        (initial_state ''http://example.org/a'' ''jpg'' ''a.jpg'' None)
        [responding (answer 200 [(''content-length'', ''10'')])] = Some (Returned TooSmall, s') \<and>
      temppath s' = []) \<and>
   accepted_status plain_kwdict (answer 200 [(''content-length'', ''10'')]) \<and>
   outside_limits limited_config
     (declared_size plain_kwdict decimal_externals (answer 200 [(''content-length'', ''10'')]))"
proof -
  let ?s = "initial_state ''http://example.org/a'' ''jpg'' ''a.jpg'' None"
  let ?r = "answer 200 [(''content-length'', ''10'')]"
  let ?a = "responding ?r"
  note th = size_limit_skip [where s = ?s and C = limited_config and a = ?a and r = ?r
      and K = plain_kwdict and X = decimal_externals and script = "[]" and ?s0.0 = ?s and ?script0.0 = "[?a]"]
  have h: "(tries ?s = 0 \<or> \<not> exceeded (tries ?s) (retries limited_config)) \<and>
      request_result ?a = Responded ?r \<and> accepted_status plain_kwdict ?r \<and>
      passes_validation limited_config plain_kwdict (extension ?s) ?r \<and>
      outside_limits limited_config (declared_size plain_kwdict decimal_externals ?r)"
    by (simp add: initial_state_def responding_def answer_def accepted_status_def
          passes_validation_def limited_config_def basic_config_def plain_kwdict_def
          decimal_externals_def declared_size_def outside_limits_def below_min_def startswith_def)
  have run: "\<exists>s'. download_impl limited_config plain_kwdict decimal_externals ?s [?a]
               = Some (Returned TooSmall, s')"
    by (simp add: run_defs limited_config_def)
  then obtain s' where run': "download_impl limited_config plain_kwdict decimal_externals ?s [?a]
               = Some (Returned TooSmall, s')" by blast
  have o: "outcome_of TooSmall = Skipped" by (simp add: outcome_of_def)
  from th h have 1: "\<exists>x l s' es. download_loop limited_config plain_kwdict decimal_externals ?s [?a]
         = Some (Returned x, s') \<and> outcome_of x = Skipped \<and> cause_logged x l \<and> temppath s' = [] \<and>
          tempfile s' = tempfile ?s \<and>
          trace s' = trace ?s @ es @ [ReleaseConn, Log Warning l] \<and> opened es = [] \<and> written es = []"
    by blast
  from th run' o have 2: "temppath s' = []" by blast
  from 1 have 3: "\<exists>x l s' es. download_loop limited_config plain_kwdict decimal_externals ?s [?a]
         = Some (Returned x, s') \<and> outcome_of x = Skipped \<and> cause_logged x l \<and> temppath s' = [] \<and>
          tempfile s' = None \<and> trace s' = es @ [ReleaseConn, Log Warning l]"
    by (auto simp: initial_state_def)
  from 3 2 run' h show ?thesis by blast
qed

text \<open>
  The claim as stated fails twice.  An HTML response with a declared size of 10
  under a minimum of 100 fails at the HTML check, which comes before the size
  check; and a 206 response with a total of 10 under the same minimum is
  skipped while the five bytes of the part file stay on disk.
\<close>

theorem size_limit_skip_counterexample:
  "map_option fst
     (download limited_config plain_kwdict decimal_externals
        (initial_state ''http://example.org/a'' ''jpg'' ''a.jpg'' None)
        [responding (answer 200 [(''content-type'', ''text/html''), (''content-length'', ''10'')])])
     = Some (Returned HtmlResponse) \<and>
   outcome_of HtmlResponse = Failed \<and>
   declared_size plain_kwdict decimal_externals
        (answer 200 [(''content-type'', ''text/html''), (''content-length'', ''10'')]) = Some 10 \<and>
   below_min limited_config 10 = Some 100 \<and>
   map_option (\<lambda>(r, s). (r, tempfile s))
     (download limited_config plain_kwdict decimal_externals
        (initial_state ''http://example.org/a'' ''jpg'' ''a.jpg'' (Some ''abcde''))
        [responding (answer 206 [(''content-range'', ''bytes 5-9/10'')])])
     = Some (Returned TooSmall, Some ''abcde'') \<and>
   outcome_of TooSmall = Skipped"
  by (simp add: run_defs limited_config_def outcome_of_def declared_size_def rpartition_tail_def)

section \<open>The status 416\<close>

text \<open>
  C3, as amended.  For every attempt whose response has status 416, when 416 is
  not among the file's expected status codes: if a non-empty part file exists
  (its length was sent in the Range header) the loop body breaks out of the loop
  right after the request, and the loop then ends as a completed download
  without opening or writing a file, so the part file is kept as it is; if there
  is no part file the response takes the ordinary path of a status that is not
  accepted: it is retried when the retry codes or the retry predicate ask for
  it, and otherwise the connection is released, the status is logged and the
  download fails.
\<close>

theorem range_not_satisfiable:
  assumes "request_result a = Responded r" and "status_code r = 416"
    and "416 \<notin> set (http_expected_status K)"
  shows "(part_size t \<noteq> 0 \<longrightarrow>
            attempt_body C K X a t = Break ((send_request C K t)\<lparr>resp := Some r, code := 416\<rparr>) \<and>
            map_of (request_headers C K (part_size t)) ''Range'' =
              Some (''bytes='' @ str_nat (part_size t) @ ''-'')) \<and>
         (part_size t = 0 \<longrightarrow>
            (\<exists>t'. msg t' = MsgStatus 416 (reason r) (url t) \<and>
               attempt_body C K X a t =
                 (if retry_wanted C K r then Continue t'
                  else Return BadStatus
                         (warning (LMsg (MsgStatus 416 (reason r) (url t))) (release_conn t'))))) \<and>
         (part_size s \<noteq> 0 \<and> (tries s = 0 \<or> \<not> exceeded (tries s) (retries C)) \<longrightarrow>
            (\<exists>s' es. download_loop C K X s (a # script) = Some (Returned Completed, s') \<and>
               tempfile s' = tempfile s \<and> trace s' = trace s @ es \<and>
               opened es = [] \<and> written es = []))"
proof (intro conjI impI)
  assume "part_size t \<noteq> 0"
  then show "attempt_body C K X a t = Break ((send_request C K t)\<lparr>resp := Some r, code := 416\<rparr>)"
    using assms by (rule_tac attempt_416_complete)
next
  assume "part_size t \<noteq> 0"
  then show "map_of (request_headers C K (part_size t)) ''Range'' =
              Some (''bytes='' @ str_nat (part_size t) @ ''-'')"
    by (rule range_header)
next
  assume "part_size t = 0"
  then show "\<exists>t'. msg t' = MsgStatus 416 (reason r) (url t) \<and>
               attempt_body C K X a t =
                 (if retry_wanted C K r then Continue t'
                  else Return BadStatus
                         (warning (LMsg (MsgStatus 416 (reason r) (url t))) (release_conn t')))"
    using assms by (rule_tac attempt_416_ordinary)
next
  assume h: "part_size s \<noteq> 0 \<and> (tries s = 0 \<or> \<not> exceeded (tries s) (retries C))"
  then obtain s1 where s1: "retry_check C s = Next s1" using retry_check_Next by blast
  let ?t = "retry_sleep C a s1"
  from head_frame [OF s1, of a] obtain es where
    f: "tempfile ?t = tempfile s" "trace ?t = trace s @ es" "opened es = []" "written es = []"
    by blast
  have ps: "part_size ?t \<noteq> 0" using h f(1) by (simp add: part_size_def)
  let ?b = "(send_request C K ?t)\<lparr>resp := Some r, code := 416\<rparr>"
  have b: "attempt_body C K X a ?t = Break ?b"
    using assms ps by (rule_tac attempt_416_complete)
  have "resp ?b = Some r" by simp
  from finish_Completed [OF this, of C K] obtain s' where
    s': "finish C K ?b = (Returned Completed, s')" "tempfile s' = tempfile ?b" "trace s' = trace ?b"
    by blast
  from send_request_trace [of C K ?t] obtain e where
    e: "trace (send_request C K ?t) = trace ?t @ [e]" "opened [e] = []" "written [e] = []" by blast
  have dl: "download_loop C K X s (a # script) = Some (Returned Completed, s')"
    using s1 b s'(1) by (simp add: then_do_simps)
  have tf: "tempfile s' = tempfile s" using s'(2) f(1) by (simp add: send_request_fields)
  have tr: "trace s' = trace s @ (es @ [e])" using s'(3) e(1) f(2) by simp
  have oe: "opened (es @ [e]) = []" and we: "written (es @ [e]) = []"
    using f e by (simp_all add: opened_append written_append)
  show "\<exists>s' es. download_loop C K X s (a # script) = Some (Returned Completed, s') \<and>
               tempfile s' = tempfile s \<and> trace s' = trace s @ es \<and>
               opened es = [] \<and> written es = []"
    using dl tf tr oe we by blast
qed

theorem range_not_satisfiable_witness:
  "attempt_body (basic_config 0 [] False) plain_kwdict no_externals (responding (answer 416 []))
       (initial_state ''http://example.org/a'' ''jpg'' ''a.jpg.part'' (Some ''abcde'')) =
     Break ((send_request (basic_config 0 [] False) plain_kwdict
               (initial_state ''http://example.org/a'' ''jpg'' ''a.jpg.part'' (Some ''abcde'')))
            \<lparr>resp := Some (answer 416 []), code := 416\<rparr>) \<and>
   (\<exists>s' es. download_loop (basic_config 0 [] False) plain_kwdict no_externals
         (initial_state ''http://example.org/a'' ''jpg'' ''a.jpg.part'' (Some ''abcde''))
         [responding (answer 416 [])] = Some (Returned Completed, s') \<and>
       tempfile s' = Some ''abcde'' \<and> trace s' = es \<and> opened es = [] \<and> written es = [])"
proof -
  let ?s = "initial_state ''http://example.org/a'' ''jpg'' ''a.jpg.part'' (Some ''abcde'')"
  let ?r = "answer 416 []"
  have 1: "request_result (responding ?r) = Responded ?r" by (simp add: responding_def)
  have 2: "status_code ?r = 416" by (simp add: answer_def)
  have 3: "416 \<notin> set (http_expected_status plain_kwdict)" by (simp add: plain_kwdict_def)
  have 4: "part_size ?s \<noteq> 0" "tries ?s = 0" "tempfile ?s = Some ''abcde''" "trace ?s = []"
    by (simp_all add: part_size_def initial_state_def)
  note th = range_not_satisfiable [OF 1 2 3, where t = ?s and s = ?s and C = "basic_config 0 [] False"
      and X = no_externals and script = "[]"]
  from th 4 show ?thesis by auto
qed

text \<open>
  The claim as stated fails when 416 is one of the file's expected status codes:
  the test for an accepted status comes first, so a 416 answer to a request with
  a Range header is taken as full content, the part file is opened in truncating
  mode and its five bytes are lost.
\<close>

theorem range_not_satisfiable_counterexample:
  "map_option (\<lambda>(r, s). (r, opened (trace s), tempfile s))
     (download_impl (basic_config 0 [] False) expecting_416 no_externals
        (initial_state ''http://example.org/a'' ''txt'' ''a.txt.part'' (Some ''abcde''))
        [responding (answer 416 [])])
     = Some (Returned Completed, [''w+b''], Some [])"
  by (simp add: run_defs expecting_416_def)

section \<open>The response validator\<close>

text \<open>
  C4, as amended.  For every attempt with an accepted status in which the
  configured validator (validation enabled) returns a string: the string
  replaces the URL, the try counter is decremented, so that it is what it was
  before the attempt, and the body continues the loop having done nothing but
  the request.  The next iteration starts with that counter: when it is zero
  (the substitution was the first counted attempt) the loop head does nothing and
  the next request follows at once; when it is not zero and within the retry
  limit, the head logs the retry warning with the message of the earlier failure
  and sleeps before the next request, exactly as many seconds as
  the counter, or the larger of that and the value of the 429 backoff function
  when the accepted status was 429 and such a function is configured.
  A validator result that is false releases the connection, logs the invalid
  response and fails; a result that is true leaves the attempt as it is
  without a validator.
\<close>

theorem validator_substitution:
  assumes "request_result a = Responded r" and "accepted_status K r" and "validate C"
    and "http_validate K = Some v"
  shows
   "(\<forall>u. v r = VStr u \<longrightarrow>
       (\<exists>t'. attempt_body C K X a t = Continue t' \<and> url t' = u \<and> tries t' = tries t \<and>
          trace t' = trace (send_request C K t) \<and>
          (tries t = 0 \<longrightarrow> retry_check C t' = Next t' \<and> retry_sleep C a' t' = t') \<and>
          (tries t \<noteq> 0 \<and> \<not> exceeded (tries t) (retries C) \<longrightarrow>
             (\<exists>t1 tr. retry_check C t' = Next t1 \<and>
                trace t1 = tr @ [Log Warning (LRetry (msg t) (tries t) (retries C))] \<and>
                trace (retry_sleep C a' t1) =
                  trace t1 @ [Sleep (retry_wait C (status_code r) (backoff_429 a') (tries t))])))) \<and>
    (v r = VFalsy \<longrightarrow>
       (\<exists>t'. attempt_body C K X a t = Return InvalidResponse t' \<and>
          trace t' = trace (send_request C K t) @ [ReleaseConn, Log Warning LInvalidResponse])) \<and>
    (v r = VTruthy \<longrightarrow>
       attempt_body C K X a t = attempt_body C (K\<lparr>http_validate := None\<rparr>) X a t)"
  (is "(\<forall>u. v r = VStr u \<longrightarrow> (\<exists>t'. ?S u t')) \<and> (v r = VFalsy \<longrightarrow> ?F) \<and> (v r = VTruthy \<longrightarrow> ?T)")
proof -
  from attempt_validator [OF assms, of X t] obtain s1 where
    s1: "tries s1 = tries t + 1" "trace s1 = trace (send_request C K t)" "msg s1 = msg t"
        "code s1 = status_code r"
    and b: "attempt_body C K X a t =
             (case v r of
                VRaise \<Rightarrow> Raise ValidatorError (release_conn s1)
              | VStr u \<Rightarrow> Continue (s1\<lparr>url := u, tries := tries s1 - 1\<rparr>)
              | VFalsy \<Rightarrow> Return InvalidResponse (warning LInvalidResponse (release_conn s1))
              | VTruthy \<Rightarrow> attempt_body C (K\<lparr>http_validate := None\<rparr>) X a t)"
    by blast
  have str: "\<exists>t'. ?S u t'" if u: "v r = VStr u" for u
  proof -
    let ?t' = "s1\<lparr>url := u, tries := tries s1 - 1\<rparr>"
    have c: "attempt_body C K X a t = Continue ?t'" using b u by simp
    have f: "url ?t' = u" "tries ?t' = tries t" "trace ?t' = trace (send_request C K t)"
      "msg ?t' = msg t" "code ?t' = status_code r" using s1 by simp_all
    have z: "tries t = 0 \<longrightarrow> retry_check C ?t' = Next ?t' \<and> retry_sleep C a' ?t' = ?t'"
      using retry_head_idle [of ?t' C a'] f(2) by simp
    have n: "tries t \<noteq> 0 \<and> \<not> exceeded (tries t) (retries C) \<longrightarrow>
             (\<exists>t1 tr. retry_check C ?t' = Next t1 \<and>
                trace t1 = tr @ [Log Warning (LRetry (msg t) (tries t) (retries C))] \<and>
                trace (retry_sleep C a' t1) =
                  trace t1 @ [Sleep (retry_wait C (status_code r) (backoff_429 a') (tries t))])"
    proof
      assume h: "tries t \<noteq> 0 \<and> \<not> exceeded (tries t) (retries C)"
      then have "tries ?t' \<noteq> 0" "\<not> exceeded (tries ?t') (retries C)"
        using f(2) by simp_all
      from retry_check_passes [OF this] obtain t1 tr where
        t1: "retry_check C ?t' = Next t1"
            "trace t1 = tr @ [Log Warning (LRetry (msg ?t') (tries ?t') (retries C))]"
            "tries t1 = tries ?t'" "code t1 = code ?t'" by blast
      have w: "trace t1 = tr @ [Log Warning (LRetry (msg t) (tries t) (retries C))]"
        using t1(2) f(2) f(4) by simp
      have nz: "tries t1 \<noteq> 0" using t1(3) f(2) h by simp
      have ct: "code t1 = status_code r" "tries t1 = tries t" using t1(3,4) f(2,5) by simp_all
      from retry_sleep_exact [OF nz, of C a'] ct
      have d: "trace (retry_sleep C a' t1) =
                 trace t1 @ [Sleep (retry_wait C (status_code r) (backoff_429 a') (tries t))]"
        by simp
      from t1(1) w d
      show "\<exists>t1 tr. retry_check C ?t' = Next t1 \<and>
                trace t1 = tr @ [Log Warning (LRetry (msg t) (tries t) (retries C))] \<and>
                trace (retry_sleep C a' t1) =
                  trace t1 @ [Sleep (retry_wait C (status_code r) (backoff_429 a') (tries t))]"
        by (intro exI [of _ t1] exI [of _ tr] conjI)
    qed
    from c f(1) f(2) f(3) z n show ?thesis
      by (intro exI [of _ ?t'] conjI)
  qed
  have fal: "?F" if "v r = VFalsy"
    using b that s1 by (simp add: warning_def release_conn_def emit_def)
  have tru: "?T" if "v r = VTruthy"
    using b that by simp
  show ?thesis
  proof (intro conjI allI impI)
    fix u assume "v r = VStr u" then show "\<exists>t'. ?S u t'" by (rule str)
  next
    assume "v r = VFalsy" then show ?F by (rule fal)
  next
    assume "v r = VTruthy" then show ?T by (rule tru)
  qed
qed

theorem validator_substitution_witness:
  "(\<exists>t'. attempt_body (basic_config 2 [] False) moved_kwdict no_externals
          (responding (answer 200 [(''x-moved'', ''http://example.org/b'')]))
          (initial_state ''http://example.org/a'' ''txt'' ''a.txt'' None) = Continue t' \<and>
        url t' = ''http://example.org/b'' \<and> tries t' = 0 \<and>
        retry_check (basic_config 2 [] False) t' = Next t' \<and>
        retry_sleep (basic_config 2 [] False) (responding (answer 200 [])) t' = t') \<and>
   (\<exists>t' t1. attempt_body (basic_config 2 [] False) moved_kwdict no_externals
          (responding (answer 200 [(''x-moved'', ''http://example.org/b'')]))
          ((initial_state ''http://example.org/a'' ''txt'' ''a.txt'' None)\<lparr>tries := 1\<rparr>) = Continue t' \<and>
        url t' = ''http://example.org/b'' \<and> tries t' = 1 \<and>
        retry_check (basic_config 2 [] False) t' = Next t1 \<and>
        trace (retry_sleep (basic_config 2 [] False) (responding (answer 200 [])) t1) =
          trace t1 @ [Sleep 1])"
proof -
  let ?r = "answer 200 [(''x-moved'', ''http://example.org/b'')]"
  let ?v = "\<lambda>r. case map_of (headers r) ''x-moved'' of Some u \<Rightarrow> VStr u | None \<Rightarrow> VTruthy"
  let ?t = "initial_state ''http://example.org/a'' ''txt'' ''a.txt'' None"
  let ?C = "basic_config 2 [] False"
  have 1: "request_result (responding ?r) = Responded ?r" by (simp add: responding_def)
  have 2: "accepted_status moved_kwdict ?r" by (simp add: accepted_status_def answer_def)
  have 3: "validate ?C" by (simp add: basic_config_def)
  have 4: "http_validate moved_kwdict = Some ?v" by (simp add: moved_kwdict_def)
  have 5: "?v ?r = VStr ''http://example.org/b''" by (simp add: answer_def)
  have 6: "tries ?t = 0" by (simp add: initial_state_def)
  have 7: "tries (?t\<lparr>tries := 1\<rparr>) \<noteq> 0 \<and> \<not> exceeded (tries (?t\<lparr>tries := 1\<rparr>)) (retries ?C)"
    "tries (?t\<lparr>tries := 1\<rparr>) = 1"
    by (simp_all add: exceeded_def basic_config_def)
  have 8: "retry_wait ?C (status_code ?r) (backoff_429 (responding (answer 200 []))) 1 = 1"
    by (simp add: retry_wait_def answer_def)
  from validator_substitution [OF 1 2 3 4, where t = ?t and X = no_externals
      and a' = "responding (answer 200 [])"] 5 6
  have a: "\<exists>t'. attempt_body ?C moved_kwdict no_externals (responding ?r) ?t = Continue t' \<and>
        url t' = ''http://example.org/b'' \<and> tries t' = 0 \<and>
        retry_check ?C t' = Next t' \<and> retry_sleep ?C (responding (answer 200 [])) t' = t'"
    by auto
  from validator_substitution [OF 1 2 3 4, where t = "?t\<lparr>tries := 1\<rparr>" and X = no_externals
      and a' = "responding (answer 200 [])"] 5 7 8
  have b: "\<exists>t' t1. attempt_body ?C moved_kwdict no_externals (responding ?r) (?t\<lparr>tries := 1\<rparr>) = Continue t' \<and>
        url t' = ''http://example.org/b'' \<and> tries t' = 1 \<and>
        retry_check ?C t' = Next t1 \<and>
        trace (retry_sleep ?C (responding (answer 200 [])) t1) = trace t1 @ [Sleep 1]"
    by auto
  from a b show ?thesis by (rule conjI)
qed

text \<open>
  The claim as stated fails when the substitution is not the first counted
  attempt: after a 503, a response whose validator returns a new URL is followed
  by the retry warning of the 503 and a sleep of one second before the request
  for the new URL.
\<close>

theorem validator_substitution_counterexample:
  "map_option (\<lambda>(r, s). (r, marks (trace s), warnings (trace s)))
     (download_impl (basic_config 2 [] False) moved_kwdict no_externals
        (initial_state ''http://example.org/a'' ''txt'' ''a.txt'' None)
        [responding (answer 503 []),
         responding (answer 200 [(''x-moved'', ''http://example.org/b'')]),
         responding (answer 200 [])])
     = Some (Returned Completed, [Attempt, Wait 1, Attempt, Wait 1, Attempt],
         [LRetry (MsgStatus 503 ''R'' ''http://example.org/a'') 1 (Some 2),
          LRetry (MsgStatus 503 ''R'' ''http://example.org/a'') 1 (Some 2)])"
  by (simp add: run_defs moved_kwdict_def)

section \<open>A partial file that cannot be resumed\<close>




section \<open>The extension resolver\<close>

text \<open>
  C7.  For every response and every system resolver, \<open>_find_extension\<close>
  strips the parameters after \<open>;\<close> from the Content-Type, puts \<open>image/\<close> in front
  of a type without a slash, and returns the entry of the explicit MIME table for
  that type; when the table has none, the system resolver's extension without
  its first character (the dot); and when that fails too, \<open>bin\<close>, with one
  warning about the unknown MIME type.  The first two paths log nothing.
\<close>

theorem find_extension_resolution:
  "(\<forall>e. map_of MIME_TYPES (spec_mime_type r) = Some e \<longrightarrow> find_extension X r = (e, [])) \<and>
   (\<forall>d e. map_of MIME_TYPES (spec_mime_type r) = None \<and>
           guess_extension X (spec_mime_type r) = Some (d # e)
       \<longrightarrow> find_extension X r = (e, [])) \<and>
   (map_of MIME_TYPES (spec_mime_type r) = None \<and>
      (guess_extension X (spec_mime_type r) = None \<or> guess_extension X (spec_mime_type r) = Some [])
       \<longrightarrow> find_extension X r = (''bin'', [LUnknownMime (spec_mime_type r)]))"
  by (auto simp: find_extension_def spec_mime_type_def partition_head_def Let_def
           split: option.splits list.splits)

lemma spec_mime_type_png: "spec_mime_type png_response = ''image/png''"
  by (simp add: spec_mime_type_def png_response_def)

theorem find_extension_resolution_witness:
  "map_of MIME_TYPES (spec_mime_type png_response) = Some ''png'' \<and>
   find_extension no_externals png_response = (''png'', [])"
proof -
  have h: "map_of MIME_TYPES (spec_mime_type png_response) = Some ''png''"
    by (simp add: spec_mime_type_png MIME_TYPES_def)
  from find_extension_resolution [of png_response no_externals] h show ?thesis by blast
qed

section \<open>The signature scan\<close>

text \<open>
  C6.  The claim is that after a mismatch the predicates are scanned in table
  order and the first extension whose predicate matches the probe is adopted.
  For the 11-byte probe \<open>00 00 01 00 f t y p a v i\<close> under the extension \<open>jpg\<close> the
  \<open>ico\<close> predicate matches and no predicate before it in the table does, but
  \<open>_adjust_extension\<close> raises IndexError: the scan reaches \<open>avif\<close> first,
  whose predicate reads \<open>s[11]\<close>.
\<close>

theorem adjust_extension_avif_index_error:
  "sig_ico ico_avif_header \<and>
   \<not> sig_jpg ico_avif_header \<and> \<not> sig_png ico_avif_header \<and> \<not> sig_gif ico_avif_header \<and>
   \<not> sig_bmp ico_avif_header \<and> \<not> sig_webp ico_avif_header \<and>
   adjust_extension_impl (initial_state ''http://example.org/a'' ''jpg'' ''a.jpg'' None)
       ico_avif_header = Inl IndexError"
  by (simp add: adjust_extension_impl_def initial_state_def SIGNATURE_CHECKS_def
        ico_avif_header_def no_raise_def sig_ico_def sig_jpg_def sig_png_def sig_gif_def
        sig_bmp_def sig_webp_def sig_avif_def slice_def byte_at_def)

section \<open>The rate-aware receiver\<close>

text \<open>
  C8, as amended.  In \<open>_receive_rate\<close> (with a non-zero rate, if any, and a
  progress interval that is not negative, as \<open>__init__\<close> leaves it) the chunks
  are written up to and including the first one after which the download flag
  is set; a set flag raises right after the write and ends the receiver.  The
  write of a chunk is followed by a progress update exactly when an interval
  is configured, the flag is not set and \<open>time_elapsed\<close>, the time since the
  stream of this attempt began, exceeds the interval.  The update carries the
  declared total, the bytes of this stream plus the resumed offset, and the
  truncated float quotient of the bytes of this stream alone by
  \<open>time_elapsed\<close>.
\<close>

theorem receive_rate_progress:
  assumes "rt \<noteq> Some 0" and "\<forall>p. prog = Some p \<longrightarrow> 0 \<le> p"
  shows "snd (receive_rate X rt prog btotal start 0 cs) = map_option flag_exn (first_flag cs) \<and>
         filter is_write_or_progress (fst (receive_rate X rt prog btotal start 0 cs)) =
           concat (map (\<lambda>(t, d, f, n).
                     Write d # (if f = None then progress_report X prog btotal start t n else []))
                   (running 0 (upto_flag cs)))"
  using receive_rate_run [OF assms, of X btotal start 0 cs] by simp

theorem receive_rate_progress_witness:
  "filter is_write_or_progress
     (fst (receive_rate no_externals None (Some 3) (Some 100) 10 0
        [(2, ''abcd'', None), (4, ''efgh'', None), (5, ''ij'', Some StopFlag), (6, ''kl'', None)])) =
   [Write ''abcd'', Write ''efgh'', Progress (Some 100) 18 2, Write ''ij''] \<and>
   snd (receive_rate no_externals None (Some 3) (Some 100) 10 0
        [(2, ''abcd'', None), (4, ''efgh'', None), (5, ''ij'', Some StopFlag), (6, ''kl'', None)]) =
   Some StopExtraction"
proof -
  have "(None :: rat option) \<noteq> Some 0" and "\<forall>p. Some (3::rat) = Some p \<longrightarrow> 0 \<le> p"
    by simp_all
  from receive_rate_progress [OF this, of no_externals "Some 100" 10
      "[(2, ''abcd'', None), (4, ''efgh'', None), (5, ''ij'', Some StopFlag), (6, ''kl'', None)]"]
  show ?thesis by (simp add: progress_report_def py_int_def no_externals_def flag_exn_def)
qed

text \<open>
  The claim as stated fails: with an interval of 3 seconds and chunks at 4 and 5
  seconds after the start, the second chunk gives an update although only one
  second has passed since the update of the first.
\<close>

theorem receive_rate_progress_counterexample:
  "fst (receive_rate no_externals None (Some 3) (Some 100) 10 0
          [(4, ''abcdefgh'', None), (5, ''ijklmnopqrst'', None)]) =
     [Write ''abcdefgh'', Progress (Some 100) 18 2, Write ''ijklmnopqrst'', Progress (Some 100) 30 4]
   \<and> \<not> ((5::rat) - 4 > 3)"
  by (simp add: progress_step_def rate_step_def py_int_def no_externals_def)

end
